theory Spec2Isabelle
  imports Main "HOL-Library.Sublist" "HOL-Library.Log_Nat"
begin

section \<open>JavaScript values\<close>

text \<open>
  The program (src/etherscan.js) works on untyped JavaScript values: the body of an HTTP
  response, the result of \<^verbatim>\<open>JSON.parse\<close>, the contract entry it hands on. The
  model keeps them as they are. A string is a list of code units, one \<open>char\<close> each,
  so the strings of the model are those whose code units are below 256. A number is a
  binary64 value, kept as the rational it denotes (both zeros are \<open>Finite 0\<close>), or
  one of the three values that are no rational.
\<close>

datatype number = Finite rat | PosInfinity | NegInfinity | NaN

text \<open>
  An object is the list of its own properties in the order \<^verbatim>\<open>Object.entries\<close>
  enumerates them; its keys are distinct.
\<close>

datatype js =
    JUndefined
  | JNull
  | JBool bool
  | JNum number
  | JStr string
  | JArr "js list"
  | JObj "(string \<times> js) list"

text \<open>
  Every \<^verbatim>\<open>throw\<close> of the source and every exception its built-ins raise is a
  value of \<open>error\<close>:
  \<^item> \<open>SyntaxError\<close>: \<^verbatim>\<open>JSON.parse\<close> on text that is not JSON;
  \<^item> \<open>TypeError\<close>: a property read on null or undefined, a call of something that is
    no function;
  \<^item> \<open>KeyFileError m\<close>: \<^verbatim>\<open>Unable to read API key from ~/.etherscankey: m\<close>;
  \<^item> \<open>UnsupportedChain c\<close>: \<^verbatim>\<open>Unsupported chain ID: c. ...\<close>;
  \<^item> \<open>InvalidApiKey\<close>: \<^verbatim>\<open>Invalid API key\<close>;
  \<^item> \<open>RateLimited\<close>: \<^verbatim>\<open>Rate limit exceeded\<close>;
  \<^item> \<open>ApiError m\<close>: \<^verbatim>\<open>API Error: ${errorMsg}\<close>, with \<open>m\<close> the value of
    \<^verbatim>\<open>errorMsg\<close> before it is rendered into the message;
  \<^item> \<open>NoContractFound\<close>: \<^verbatim>\<open>No contract found at this address\<close>;
  \<^item> \<open>EoaAddress a\<close>: \<^verbatim>\<open>EOA address: a\<close>;
  \<^item> \<open>UnverifiedContract a\<close>: \<^verbatim>\<open>Unverified contract: a\<close>;
  \<^item> \<open>HttpError status statusText\<close>: \<^verbatim>\<open>HTTP Error: status - statusText\<close>;
  \<^item> \<open>NetworkError m\<close>: the transport's own error, rethrown, when it carries no
    response;
  \<^item> \<open>IOError m\<close>: a failure of \<^verbatim>\<open>fs.mkdir\<close> or \<^verbatim>\<open>fs.writeFile\<close>.
\<close>

datatype error =
    SyntaxError
  | TypeError
  | KeyFileError string
  | UnsupportedChain int
  | InvalidApiKey
  | RateLimited
  | ApiError js
  | NoContractFound
  | EoaAddress string
  | UnverifiedContract string
  | HttpError int string
  | NetworkError string
  | IOError string

text \<open>Truthiness, as \<^verbatim>\<open>if (v)\<close>, \<^verbatim>\<open>!v\<close> and \<^verbatim>\<open>v || w\<close> test it.\<close>

fun truthy :: "js \<Rightarrow> bool" where
  "truthy JUndefined = False"
| "truthy JNull = False"
| "truthy (JBool b) = b"
| "truthy (JNum n) = (n \<noteq> Finite 0 \<and> n \<noteq> NaN)"
| "truthy (JStr s) = (s \<noteq> [])"
| "truthy (JArr xs) = True"
| "truthy (JObj kvs) = True"

definition js_or :: "js \<Rightarrow> js \<Rightarrow> js" where
  "js_or v w = (if truthy v then v else w)"

subsection \<open>Array indices and their decimal names\<close>

definition is_digit :: "char \<Rightarrow> bool" where
  "is_digit c = (c \<in> set ''0123456789'')"

definition digit_value :: "char \<Rightarrow> nat" where
  "digit_value c = of_char c - 48"

definition decimal_value :: "string \<Rightarrow> nat" where
  "decimal_value s = foldl (\<lambda>a c. 10 * a + digit_value c) 0 s"

text \<open>
  A property name is an array index when it is the canonical decimal numeral of an
  integer below \<open>2^32 - 1\<close>: digits only, no leading zero but in \<^verbatim>\<open>"0"\<close> itself.
\<close>

definition array_index :: "string \<Rightarrow> nat option" where
  "array_index k =
     (if k \<noteq> [] \<and> list_all is_digit k \<and> (hd k \<noteq> CHR ''0'' \<or> k = ''0'')
         \<and> decimal_value k < 4294967295
      then Some (decimal_value k) else None)"

definition digit_char :: "nat \<Rightarrow> char" where
  "digit_char d = char_of (48 + d)"

function show_nat :: "nat \<Rightarrow> string" where
  "show_nat n = (if n < 10 then [digit_char n] else show_nat (n div 10) @ [digit_char (n mod 10)])"
  by pat_completeness auto
termination
  by (relation "measure id") auto

declare show_nat.simps [simp del]

subsection \<open>Property reads\<close>

text \<open>
  \<^verbatim>\<open>v.k\<close> and \<^verbatim>\<open>v[0]\<close>. Reading a property of null or undefined throws; a
  string and an array have their \<^verbatim>\<open>length\<close> and their indices; an object has
  the properties it lists. Inherited properties are left out: none of the names the
  program reads (status, message, result, length, 0, SourceCode, Proxy, sources,
  language, content and the metadata fields) is a property of a prototype.
\<close>

fun get :: "js \<Rightarrow> string \<Rightarrow> error + js" where
  "get JUndefined k = Inl TypeError"
| "get JNull k = Inl TypeError"
| "get (JBool b) k = Inr JUndefined"
| "get (JNum n) k = Inr JUndefined"
| "get (JStr s) k =
     Inr (if k = ''length'' then JNum (Finite (of_nat (length s)))
          else case array_index k of
                 Some i \<Rightarrow> if i < length s then JStr [s ! i] else JUndefined
               | None \<Rightarrow> JUndefined)"
| "get (JArr xs) k =
     Inr (if k = ''length'' then JNum (Finite (of_nat (length xs)))
          else case array_index k of
                 Some i \<Rightarrow> if i < length xs then xs ! i else JUndefined
               | None \<Rightarrow> JUndefined)"
| "get (JObj kvs) k = Inr (case map_of kvs k of Some v \<Rightarrow> v | None \<Rightarrow> JUndefined)"

text \<open>
  \<^verbatim>\<open>Object.entries(v)\<close>: the own enumerable properties, indices first. It throws on
  null and undefined, and a number or a boolean has none.
\<close>

fun entries :: "js \<Rightarrow> error + (string \<times> js) list" where
  "entries JUndefined = Inl TypeError"
| "entries JNull = Inl TypeError"
| "entries (JBool b) = Inr []"
| "entries (JNum n) = Inr []"
| "entries (JStr s) = Inr (zip (map show_nat [0..<length s]) (map (\<lambda>c. JStr [c]) s))"
| "entries (JArr xs) = Inr (zip (map show_nat [0..<length xs]) xs)"
| "entries (JObj kvs) = Inr kvs"

text \<open>
  A property of a value that is known to be neither null nor undefined, so that the read
  cannot throw; and whether an object has a key of its own.
\<close>

definition field :: "js \<Rightarrow> string \<Rightarrow> js" where
  "field v k = (case get v k of Inr w \<Rightarrow> w | Inl e \<Rightarrow> JUndefined)"


subsection \<open>Property writes\<close>

text \<open>
  An object enumerates its index-like keys first, in ascending order, then the others in
  the order they were created. Writing a property that exists replaces its value in
  place; writing a new one adds it.
\<close>

definition is_index :: "string \<Rightarrow> bool" where
  "is_index k = (array_index k \<noteq> None)"

definition own_property_order :: "(string \<times> js) list \<Rightarrow> (string \<times> js) list" where
  "own_property_order kvs =
     sort_key (\<lambda>kv. decimal_value (fst kv)) (filter (\<lambda>kv. is_index (fst kv)) kvs)
       @ filter (\<lambda>kv. \<not> is_index (fst kv)) kvs"

fun replace_property :: "(string \<times> js) list \<Rightarrow> string \<Rightarrow> js \<Rightarrow> (string \<times> js) list" where
  "replace_property [] k v = []"
| "replace_property (p # ps) k v = (if fst p = k then (k, v) # ps else p # replace_property ps k v)"

definition set_property :: "(string \<times> js) list \<Rightarrow> string \<Rightarrow> js \<Rightarrow> (string \<times> js) list" where
  "set_property kvs k v =
     (if k \<in> fst ` set kvs then replace_property kvs k v else own_property_order (kvs @ [(k, v)]))"

section \<open>The built-ins the program calls\<close>

text \<open>
  \<^verbatim>\<open>JSON.parse\<close>, \<^verbatim>\<open>JSON.stringify(v, null, 2)\<close> and \<^verbatim>\<open>parseInt\<close> belong to
  the language, not to the repository. The program is modelled over any such functions:
  the decoder takes the parser as its argument \<open>JSON_parse\<close>, the writer all three as
  a \<open>host\<close>. \<open>None\<close> from the parser is the SyntaxError it throws.
\<close>

record host =
  host_parse :: "string \<Rightarrow> js option"
  host_stringify :: "js \<Rightarrow> string"
  host_parseInt :: "js \<Rightarrow> number"

subsection \<open>A reader for JSON text\<close>

text \<open>
  \<open>json_parse\<close> reads JSON text as \<^verbatim>\<open>JSON.parse\<close> does (ECMA-404 grammar; a
  number is rounded to the nearest binary64 value, ties to even; of a repeated key the
  last value stands). It is the instance at which the general statements below are run
  on concrete text. An escape \<^verbatim>\<open>\uXXXX\<close> above \<^verbatim>\<open>00FF\<close> names a code
  unit that no \<open>char\<close> holds: such text is outside what the reader represents, and
  it gives \<open>None\<close> there. The recursion is bounded by a counter that starts at twice
  the length of the text plus two; no larger counter would read more (lemma
  \<open>json_parse_iff\<close>). The general statements hold for every parser and do not rest
  on this one.
\<close>

definition round_half_even :: "rat \<Rightarrow> int" where
  "round_half_even q =
     (let f = \<lfloor>q\<rfloor>; d = q - of_int f
      in if d < 1 / 2 then f else if 1 / 2 < d then f + 1 else if even f then f else f + 1)"

definition floor_log2 :: "rat \<Rightarrow> int" where
  "floor_log2 q =
     (let k = bitlen (fst (quotient_of q)) - bitlen (snd (quotient_of q))
      in if power_int 2 k \<le> q then k else k - 1)"

definition to_double :: "rat \<Rightarrow> number" where
  "to_double q =
     (if q = 0 then Finite 0
      else
        (let a = \<bar>q\<bar>;
             p = max (floor_log2 a - 52) (- 1074);
             r = of_int (round_half_even (a / power_int 2 p)) * power_int 2 p
         in if power_int 2 1024 \<le> r then (if q < 0 then NegInfinity else PosInfinity)
            else Finite (if q < 0 then - r else r)))"


definition is_ws :: "char \<Rightarrow> bool" where
  "is_ws c = (c \<in> set [CHR '' '', CHR 0x09, CHR 0x0A, CHR 0x0D])"

definition skip_ws :: "string \<Rightarrow> string" where
  "skip_ws s = dropWhile is_ws s"

definition hex_value :: "char \<Rightarrow> nat option" where
  "hex_value c =
     (if is_digit c then Some (of_char c - 48)
      else if c \<in> set ''abcdef'' then Some (of_char c - 87)
      else if c \<in> set ''ABCDEF'' then Some (of_char c - 55)
      else None)"

definition unescape :: "char \<Rightarrow> char option" where
  "unescape e =
     (if e = CHR 0x22 then Some (CHR 0x22)
      else if e = CHR 0x5C then Some (CHR 0x5C)
      else if e = CHR ''/'' then Some (CHR ''/'')
      else if e = CHR ''b'' then Some (CHR 0x08)
      else if e = CHR ''f'' then Some (CHR 0x0C)
      else if e = CHR ''n'' then Some (CHR 0x0A)
      else if e = CHR ''r'' then Some (CHR 0x0D)
      else if e = CHR ''t'' then Some (CHR 0x09)
      else None)"

definition unicode_escape :: "string \<Rightarrow> char option" where
  "unicode_escape ds =
     (case map hex_value ds of
        [Some a, Some b, Some c, Some d] \<Rightarrow>
          (let v = ((a * 16 + b) * 16 + c) * 16 + d in if v < 256 then Some (char_of v) else None)
      | _ \<Rightarrow> None)"

fun parse_chars :: "string \<Rightarrow> string \<Rightarrow> (string \<times> string) option" where
  "parse_chars acc [] = None"
| "parse_chars acc [c] = (if c = CHR 0x22 then Some (acc, []) else None)"
| "parse_chars acc (c # e # cs) =
     (if c = CHR 0x22 then Some (acc, e # cs)
      else if c = CHR 0x5C then
        (if e = CHR ''u'' then
           (case unicode_escape (take 4 cs) of
              Some x \<Rightarrow> parse_chars (acc @ [x]) (drop 4 cs)
            | None \<Rightarrow> None)
         else
           (case unescape e of
              Some x \<Rightarrow> parse_chars (acc @ [x]) cs
            | None \<Rightarrow> None))
      else if (of_char c :: nat) < 32 then None
      else parse_chars (acc @ [c]) (e # cs))"

definition digits_value :: "string \<Rightarrow> int" where
  "digits_value ds = foldl (\<lambda>a c. 10 * a + int (digit_value c)) 0 ds"

text \<open>
  A number: an optional minus sign, the integer part (no leading zero before another
  digit), an optional fraction and an optional exponent, each with at least one digit.
\<close>

definition take_sign :: "string \<Rightarrow> bool \<times> string" where
  "take_sign s = (if s \<noteq> [] \<and> hd s = CHR ''-'' then (True, tl s) else (False, s))"

definition take_fraction :: "string \<Rightarrow> (string \<times> string) option" where
  "take_fraction s =
     (if s \<noteq> [] \<and> hd s = CHR ''.'' then
        (if takeWhile is_digit (tl s) = [] then None
         else Some (takeWhile is_digit (tl s), dropWhile is_digit (tl s)))
      else Some ([], s))"

definition take_exponent :: "string \<Rightarrow> (int \<times> string) option" where
  "take_exponent s =
     (if s \<noteq> [] \<and> hd s \<in> set ''eE'' then
        (case (if tl s \<noteq> [] \<and> hd (tl s) = CHR ''+'' then (False, tl (tl s)) else take_sign (tl s)) of
           (neg, r) \<Rightarrow>
             if takeWhile is_digit r = [] then None
             else Some ((if neg then - digits_value (takeWhile is_digit r)
                         else digits_value (takeWhile is_digit r)),
                        dropWhile is_digit r))
      else Some (0, s))"

definition parse_number :: "string \<Rightarrow> (number \<times> string) option" where
  "parse_number s =
     (case take_sign s of
        (neg, s1) \<Rightarrow>
          if takeWhile is_digit s1 = []
             \<or> (1 < length (takeWhile is_digit s1) \<and> hd s1 = CHR ''0'')
          then None
          else
            (case take_fraction (dropWhile is_digit s1) of
               None \<Rightarrow> None
             | Some (fp, s2) \<Rightarrow>
                 (case take_exponent s2 of
                    None \<Rightarrow> None
                  | Some (e, s3) \<Rightarrow>
                      Some (to_double
                              ((if neg then - 1 else 1)
                               * of_int (digits_value (takeWhile is_digit s1 @ fp))
                               * power_int 10 (e - int (length fp))),
                            s3))))"

text \<open>A value that is neither an object nor an array: a string, a literal name or a number.\<close>

definition parse_scalar :: "string \<Rightarrow> (js \<times> string) option" where
  "parse_scalar s =
     (if prefix [CHR 0x22] s then
        (case parse_chars [] (tl s) of None \<Rightarrow> None | Some (str, r) \<Rightarrow> Some (JStr str, r))
      else if prefix ''true'' s then Some (JBool True, drop 4 s)
      else if prefix ''false'' s then Some (JBool False, drop 5 s)
      else if prefix ''null'' s then Some (JNull, drop 4 s)
      else (case parse_number s of None \<Rightarrow> None | Some (x, r) \<Rightarrow> Some (JNum x, r)))"

text \<open>The key of a member and the colon after it.\<close>

definition parse_key :: "string \<Rightarrow> (string \<times> string) option" where
  "parse_key s =
     (case skip_ws s of
        [] \<Rightarrow> None
      | q # qs \<Rightarrow>
          if q \<noteq> CHR 0x22 then None
          else
            (case parse_chars [] qs of
               None \<Rightarrow> None
             | Some (k, r) \<Rightarrow>
                 (case skip_ws r of
                    [] \<Rightarrow> None
                  | c # cs \<Rightarrow> if c \<noteq> CHR '':'' then None else Some (k, cs))))"

fun parse_value :: "nat \<Rightarrow> string \<Rightarrow> (js \<times> string) option"
and parse_elements :: "nat \<Rightarrow> js list \<Rightarrow> string \<Rightarrow> (js \<times> string) option"
and parse_members :: "nat \<Rightarrow> (string \<times> js) list \<Rightarrow> string \<Rightarrow> (js \<times> string) option"
where
  "parse_value 0 s = None"
| "parse_value (Suc n) s =
     (case skip_ws s of
        [] \<Rightarrow> None
      | c # cs \<Rightarrow>
          if c = CHR ''{'' then
            (case skip_ws cs of
               [] \<Rightarrow> None
             | d # ds \<Rightarrow> if d = CHR ''}'' then Some (JObj [], ds) else parse_members n [] cs)
          else if c = CHR ''['' then
            (case skip_ws cs of
               [] \<Rightarrow> None
             | d # ds \<Rightarrow> if d = CHR '']'' then Some (JArr [], ds) else parse_elements n [] cs)
          else parse_scalar (c # cs))"
| "parse_elements 0 acc s = None"
| "parse_elements (Suc n) acc s =
     (case parse_value n s of
        None \<Rightarrow> None
      | Some (v, r) \<Rightarrow>
          (case skip_ws r of
             [] \<Rightarrow> None
           | c # cs \<Rightarrow>
               if c = CHR '','' then parse_elements n (acc @ [v]) cs
               else if c = CHR '']'' then Some (JArr (acc @ [v]), cs)
               else None))"
| "parse_members 0 acc s = None"
| "parse_members (Suc n) acc s =
     (case parse_key s of
        None \<Rightarrow> None
      | Some (k, cs) \<Rightarrow>
          (case parse_value n cs of
             None \<Rightarrow> None
           | Some (v, r) \<Rightarrow>
               (case skip_ws r of
                  [] \<Rightarrow> None
                | d # ds \<Rightarrow>
                    if d = CHR '','' then parse_members n (set_property acc k v) ds
                    else if d = CHR ''}'' then Some (JObj (set_property acc k v), ds)
                    else None)))"

definition json_parse :: "string \<Rightarrow> js option" where
  "json_parse text =
     (case parse_value (2 * length text + 2) text of
        None \<Rightarrow> None
      | Some (v, r) \<Rightarrow> if skip_ws r = [] then Some v else None)"

section \<open>The source decoder: parseSourceCode\<close>

record decoded_file =
  path :: string
  content :: js

text \<open>\<^verbatim>\<open>s.startsWith(p)\<close> and \<^verbatim>\<open>s.slice(1, -1)\<close>.\<close>

definition startsWith :: "string \<Rightarrow> string \<Rightarrow> bool" where
  "startsWith s p = prefix p s"

definition slice_1_m1 :: "string \<Rightarrow> string" where
  "slice_1_m1 s = butlast (tl s)"

text \<open>
  The regular expression \<^verbatim>\<open>/^solc_[\d.]+\//\<close>: the text \<^verbatim>\<open>solc_\<close>, then one or
  more digits or dots, then a slash, at the start of the path. \<open>match_solc\<close> returns what
  follows the match.
\<close>

definition is_version_char :: "char \<Rightarrow> bool" where
  "is_version_char c = (is_digit c \<or> c = CHR ''.'')"

definition match_solc :: "string \<Rightarrow> string option" where
  "match_solc p =
     (if prefix ''solc_'' p then
        (let r = drop 5 p in
         case dropWhile is_version_char r of
           [] \<Rightarrow> None
         | c # rest \<Rightarrow>
             if takeWhile is_version_char r \<noteq> [] \<and> c = CHR ''/'' then Some rest else None)
      else None)"

definition cleanPath :: "string \<Rightarrow> string" where
  "cleanPath filePath = (case match_solc filePath of Some rest \<Rightarrow> rest | None \<Rightarrow> filePath)"

text \<open>One turn of the loop over the entries, and the loop: it stops at the first throw.\<close>

definition push_file :: "string \<times> js \<Rightarrow> error + decoded_file" where
  "push_file kv =
     (case get (snd kv) ''content'' of
        Inl e \<Rightarrow> Inl e
      | Inr c \<Rightarrow> Inr \<lparr>path = cleanPath (fst kv), content = js_or c (JStr '''')\<rparr>)"

fun collect_files :: "(string \<times> js) list \<Rightarrow> error + decoded_file list" where
  "collect_files [] = Inr []"
| "collect_files (kv # rest) =
     (case push_file kv of
        Inl e \<Rightarrow> Inl e
      | Inr f \<Rightarrow> (case collect_files rest of Inl e \<Rightarrow> Inl e | Inr fs \<Rightarrow> Inr (f # fs)))"

text \<open>The body of the first \<^verbatim>\<open>try\<close> (source lines 155 to 171).\<close>

definition multi_file_body :: "(string \<Rightarrow> js option) \<Rightarrow> string \<Rightarrow> error + decoded_file list" where
  "multi_file_body JSON_parse sourceCode =
     (case JSON_parse (slice_1_m1 sourceCode) of
        None \<Rightarrow> Inl SyntaxError
      | Some parsed \<Rightarrow>
          (case get parsed ''sources'' of
             Inl e \<Rightarrow> Inl e
           | Inr s \<Rightarrow>
               (case entries (js_or s (JObj [])) of
                  Inl e \<Rightarrow> Inl e
                | Inr es \<Rightarrow> collect_files es)))"

text \<open>
  The body of the second \<^verbatim>\<open>try\<close> (source lines 178 to 193); \<open>Inr None\<close> when the
  \<^verbatim>\<open>if\<close> is not taken and control leaves the \<^verbatim>\<open>try\<close> without a return.
\<close>

definition standard_json_body :: "(string \<Rightarrow> js option) \<Rightarrow> string \<Rightarrow> error + decoded_file list option" where
  "standard_json_body JSON_parse sourceCode =
     (case JSON_parse sourceCode of
        None \<Rightarrow> Inl SyntaxError
      | Some parsed \<Rightarrow>
          (case get parsed ''language'' of
             Inl e \<Rightarrow> Inl e
           | Inr l \<Rightarrow>
               if l = JStr ''Solidity'' then
                 (case get parsed ''sources'' of
                    Inl e \<Rightarrow> Inl e
                  | Inr s \<Rightarrow>
                      if truthy s then
                        (case entries s of
                           Inl e \<Rightarrow> Inl e
                         | Inr es \<Rightarrow>
                             (case collect_files es of
                                Inl e \<Rightarrow> Inl e
                              | Inr fs \<Rightarrow> Inr (Some fs)))
                      else Inr None)
               else Inr None))"

text \<open>
  The file one entry of the sources stands for: its key without the wrapper directory,
  its \<^verbatim>\<open>content\<close>, or the empty string when that is absent or falsy.
\<close>

definition emitted :: "string \<times> js \<Rightarrow> decoded_file" where
  "emitted kv = \<lparr>path = cleanPath (fst kv), content = js_or (field (snd kv) ''content'') (JStr [])\<rparr>"

definition single_file :: "string \<Rightarrow> decoded_file list" where
  "single_file sourceCode = [\<lparr>path = ''Contract.sol'', content = JStr sourceCode\<rparr>]"

text \<open>
  \<open>parseSourceCode\<close> returns \<open>Inl\<close> where the source function would throw. Both
  \<^verbatim>\<open>catch\<close> clauses swallow whatever their \<^verbatim>\<open>try\<close> threw.
\<close>

definition parseSourceCode :: "(string \<Rightarrow> js option) \<Rightarrow> string \<Rightarrow> error + decoded_file list" where
  "parseSourceCode JSON_parse sourceCode =
     (if startsWith sourceCode ''{{'' then
        (case multi_file_body JSON_parse sourceCode of
           Inr files \<Rightarrow> Inr files
         | Inl e \<Rightarrow> Inr (single_file sourceCode))
      else if startsWith sourceCode ''{'' then
        (case standard_json_body JSON_parse sourceCode of
           Inr (Some files) \<Rightarrow> Inr files
         | Inr None \<Rightarrow> Inr (single_file sourceCode)
         | Inl e \<Rightarrow> Inr (single_file sourceCode))
      else Inr (single_file sourceCode))"

section \<open>Paths: path.join and path.dirname\<close>

text \<open>
  The POSIX variant of Node's \<^verbatim>\<open>path\<close> module, which the writer calls. A path is
  cut at its slashes; \<open>normalize_segments\<close> is Node's \<^verbatim>\<open>normalizeString\<close>: it
  drops empty and \<^verbatim>\<open>.\<close> segments, and a \<^verbatim>\<open>..\<close> removes the segment before it
  when there is one that is not itself \<^verbatim>\<open>..\<close>, is kept when the path is relative, and
  is dropped at the root of an absolute path.
\<close>

fun split_on :: "char \<Rightarrow> string \<Rightarrow> string list" where
  "split_on sep [] = [[]]"
| "split_on sep (c # cs) =
     (if c = sep then [] # split_on sep cs
      else (case split_on sep cs of [] \<Rightarrow> [[c]] | s # ss \<Rightarrow> (c # s) # ss))"

fun join_segments :: "string list \<Rightarrow> string" where
  "join_segments [] = []"
| "join_segments [s] = s"
| "join_segments (s # t # ss) = s @ ''/'' @ join_segments (t # ss)"

fun normalize_segments :: "bool \<Rightarrow> string list \<Rightarrow> string list \<Rightarrow> string list" where
  "normalize_segments allowAboveRoot res [] = res"
| "normalize_segments allowAboveRoot res (seg # segs) =
     (if seg = [] \<or> seg = ''.'' then normalize_segments allowAboveRoot res segs
      else if seg = ''..'' then
        (if res \<noteq> [] \<and> last res \<noteq> ''..'' then normalize_segments allowAboveRoot (butlast res) segs
         else if allowAboveRoot then normalize_segments allowAboveRoot (res @ [''..'']) segs
         else normalize_segments allowAboveRoot res segs)
      else normalize_segments allowAboveRoot (res @ [seg]) segs)"

definition is_absolute :: "string \<Rightarrow> bool" where
  "is_absolute p = (p \<noteq> [] \<and> hd p = CHR ''/'')"

definition path_normalize :: "string \<Rightarrow> string" where
  "path_normalize p =
     (if p = [] then ''.''
      else
        (let isAbsolute = is_absolute p;
             trailingSeparator = (last p = CHR ''/'');
             n = join_segments (normalize_segments (\<not> isAbsolute) [] (split_on (CHR ''/'') p))
         in if n = [] then (if isAbsolute then ''/'' else if trailingSeparator then ''./'' else ''.'')
            else (if isAbsolute then ''/'' else []) @ n @ (if trailingSeparator then ''/'' else [])))"

text \<open>\<^verbatim>\<open>path.join(a, b)\<close>: the non-empty arguments, joined by a slash, normalized.\<close>

definition path_join :: "string \<Rightarrow> string \<Rightarrow> string" where
  "path_join a b =
     (let joined = join_segments (filter (\<lambda>arg. arg \<noteq> []) [a, b])
      in if joined = [] then ''.'' else path_normalize joined)"

text \<open>
  \<^verbatim>\<open>path.dirname\<close>: Node scans from the last character down to index 1 for the first
  slash that follows a character that is no slash. \<open>dirname_scan\<close> is that loop, run over
  the reversed characters at indices 1 and up; it returns the index of the slash.
\<close>

fun dirname_scan :: "bool \<Rightarrow> string \<Rightarrow> nat option" where
  "dirname_scan matchedSlash [] = None"
| "dirname_scan matchedSlash (c # cs) =
     (if c = CHR ''/'' then
        (if \<not> matchedSlash then Some (Suc (length cs)) else dirname_scan matchedSlash cs)
      else dirname_scan False cs)"

definition path_dirname :: "string \<Rightarrow> string" where
  "path_dirname p =
     (if p = [] then ''.''
      else
        (case dirname_scan True (rev (tl p)) of
           None \<Rightarrow> if is_absolute p then ''/'' else ''.''
         | Some e \<Rightarrow> if is_absolute p \<and> e = 1 then ''//'' else take e p))"

text \<open>A segment as a normalized path holds it: not empty, not a single dot, free of slashes.\<close>

definition plain_segment :: "string \<Rightarrow> bool" where
  "plain_segment s = (s \<noteq> [] \<and> s \<noteq> ''.'' \<and> CHR ''/'' \<notin> set s)"

text \<open>
  A target, normalized as \<^verbatim>\<open>path.join\<close> returns it, stays under a base directory
  when its segments begin with those of the normalized base and no \<^verbatim>\<open>..\<close> follows
  them, and both are absolute or both relative.
\<close>

definition segments :: "string \<Rightarrow> string list" where
  "segments p = filter (\<lambda>s. s \<noteq> [] \<and> s \<noteq> ''.'') (split_on (CHR ''/'') p)"

definition stays_under :: "string \<Rightarrow> string \<Rightarrow> bool" where
  "stays_under base target =
     (let r = segments (path_normalize base); t = segments target
      in is_absolute target = is_absolute base \<and> take (length r) t = r
         \<and> ''..'' \<notin> set (drop (length r) t))"

text \<open>
  A relative path climbs when, normalized on its own, it still has a \<^verbatim>\<open>..\<close> segment:
  Node keeps such a segment only at the front, where nothing is left for it to remove, so
  \<^verbatim>\<open>../x\<close> and \<^verbatim>\<open>a/../../x\<close> climb and \<^verbatim>\<open>a/../b\<close> does not.
\<close>

definition climbs :: "string \<Rightarrow> bool" where
  "climbs rel = (''..'' \<in> set (normalize_segments True [] (split_on (CHR ''/'') rel)))"

section \<open>The client: getApiKey, validateChainId, isContract, fetchContractSource\<close>

text \<open>
  The parameters of one \<^verbatim>\<open>axios.get\<close> on the v2 endpoint, and what the call throws:
  an error that carries the response (its status and status text), or one that does not.
\<close>

record params =
  chainid :: int
  module :: string
  action :: string
  address :: string
  tag :: "string option"
  apikey :: string

datatype transport_error = WithResponse int string | WithoutResponse string

text \<open>
  What the client runs in: the key its constructor got (\<open>None\<close> when the option is
  absent), what reading \<^verbatim>\<open>~/.etherscankey\<close> gives (the file is not written during a
  call, so every read of one call gives the same), and the transport, which answers a
  request with the response's \<^verbatim>\<open>data\<close> or throws.
\<close>

record env =
  apiKey :: "string option"
  keyFile :: "string + string"
  axios_get :: "params \<Rightarrow> transport_error + js"

definition CHAIN_CONFIGS :: "(int \<times> string) list" where
  "CHAIN_CONFIGS =
     [(1, ''Ethereum Mainnet''), (56, ''BNB Smart Chain''), (137, ''Polygon''),
      (42161, ''Arbitrum One''), (10, ''Optimism''), (43114, ''Avalanche C-Chain''),
      (250, ''Fantom''), (8453, ''Base''), (81457, ''Blast''), (534352, ''Scroll''),
      (59144, ''Linea''), (11155111, ''Sepolia Testnet''), (5, ''Goerli Testnet'')]"

text \<open>The two requests: for the verified source, and for the bytecode at the address.\<close>

definition source_request :: "int \<Rightarrow> string \<Rightarrow> string \<Rightarrow> params" where
  "source_request chainId addr key =
     \<lparr>chainid = chainId, module = ''contract'', action = ''getsourcecode'',
      address = addr, tag = None, apikey = key\<rparr>"

definition probe_request :: "int \<Rightarrow> string \<Rightarrow> string \<Rightarrow> params" where
  "probe_request chainId addr key =
     \<lparr>chainid = chainId, module = ''proxy'', action = ''eth_getCode'',
      address = addr, tag = Some ''latest'', apikey = key\<rparr>"

text \<open>\<^verbatim>\<open>String.prototype.trim\<close> on code units below 256.\<close>

definition is_space :: "char \<Rightarrow> bool" where
  "is_space c = (c \<in> set [CHR 0x09, CHR 0x0A, CHR 0x0B, CHR 0x0C, CHR 0x0D, CHR 0x20, CHR 0xA0])"

definition trim :: "string \<Rightarrow> string" where
  "trim s = rev (dropWhile is_space (rev (dropWhile is_space s)))"

text \<open>
  \<open>getApiKey\<close>: the key that was passed when it is truthy, which for a string means not
  empty; otherwise the trimmed content of the key file, or the error of reading it.
\<close>

definition read_key_file :: "env \<Rightarrow> error + string" where
  "read_key_file e = (case keyFile e of Inl m \<Rightarrow> Inl (KeyFileError m) | Inr key \<Rightarrow> Inr (trim key))"

definition getApiKey :: "env \<Rightarrow> error + string" where
  "getApiKey e =
     (case apiKey e of
        Some k \<Rightarrow> if k \<noteq> [] then Inr k else read_key_file e
      | None \<Rightarrow> read_key_file e)"

definition validateChainId :: "int \<Rightarrow> error + string" where
  "validateChainId chainId =
     (case map_of CHAIN_CONFIGS chainId of
        None \<Rightarrow> Inl (UnsupportedChain chainId)
      | Some config \<Rightarrow> Inr config)"

text \<open>
  The \<^verbatim>\<open>try\<close> body of \<open>isContract\<close> after the request (source lines 70 to 80).
\<close>

definition probe_verdict :: "js \<Rightarrow> error + bool" where
  "probe_verdict data =
     (case get data ''status'' of
        Inl e \<Rightarrow> Inl e
      | Inr status \<Rightarrow>
          (case get data ''result'' of
             Inl e \<Rightarrow> Inl e
           | Inr result \<Rightarrow>
               if status = JStr ''1'' \<and> truthy result
               then Inr (result \<noteq> JStr ''0x'' \<and> result \<noteq> JStr '''')
               else if result = JStr ''0x'' then Inr False
               else Inr True))"

text \<open>
  A call returns its result and the requests sent so far. \<open>isContract\<close> reads the key
  outside its \<^verbatim>\<open>try\<close>; everything inside is caught and answered with \<open>True\<close>.
\<close>

definition isContract :: "env \<Rightarrow> int \<Rightarrow> string \<Rightarrow> params list \<Rightarrow> (error + bool) \<times> params list" where
  "isContract e chainId addr sent =
     (case getApiKey e of
        Inl err \<Rightarrow> (Inl err, sent)
      | Inr key \<Rightarrow>
          (let request = probe_request chainId addr key
           in (case axios_get e request of
                 Inl err \<Rightarrow> (Inr True, sent @ [request])
               | Inr data \<Rightarrow>
                   (case probe_verdict data of
                      Inl err \<Rightarrow> (Inr True, sent @ [request])
                    | Inr b \<Rightarrow> (Inr b, sent @ [request])))))"

text \<open>
  \<^verbatim>\<open>errorMsg.includes(x)\<close>: a substring test on a string, a membership test on an
  array, and a TypeError on anything else, which has no such method.
\<close>

fun js_includes :: "js \<Rightarrow> string \<Rightarrow> error + bool" where
  "js_includes (JStr s) x = Inr (sublist x s)"
| "js_includes (JArr xs) x = Inr (JStr x \<in> set xs)"
| "js_includes v x = Inl TypeError"

text \<open>Source lines 105 to 114: the message that is inspected, and what is thrown.\<close>

definition errorMsg :: "js \<Rightarrow> error + js" where
  "errorMsg data =
     (case get data ''message'' of
        Inl e \<Rightarrow> Inl e
      | Inr message \<Rightarrow>
          if truthy message then Inr message
          else
            (case get data ''result'' of
               Inl e \<Rightarrow> Inl e
             | Inr result \<Rightarrow> Inr (js_or result (JStr ''Failed to fetch contract source''))))"

definition api_failure :: "js \<Rightarrow> error" where
  "api_failure msg =
     (case js_includes msg ''Invalid API Key'' of
        Inl e \<Rightarrow> e
      | Inr True \<Rightarrow> InvalidApiKey
      | Inr False \<Rightarrow>
          (case js_includes msg ''invalid API key'' of
             Inl e \<Rightarrow> e
           | Inr True \<Rightarrow> InvalidApiKey
           | Inr False \<Rightarrow>
               (case js_includes msg ''Max rate limit reached'' of
                  Inl e \<Rightarrow> e
                | Inr True \<Rightarrow> RateLimited
                | Inr False \<Rightarrow> ApiError msg)))"

text \<open>
  \<^verbatim>\<open>contract.proxyInfo = {...}\<close>. The module is strict code: writing a property of a
  primitive throws. A named property of an array has no place in \<open>js\<close>; the program
  never writes one, since it assigns only to a value whose \<^verbatim>\<open>SourceCode\<close> is
  truthy, and that is an object (lemma \<open>truthy_SourceCode_object\<close>).
\<close>

fun assign :: "js \<Rightarrow> string \<Rightarrow> js \<Rightarrow> error + js" where
  "assign (JObj kvs) k v = Inr (JObj (set_property kvs k v))"
| "assign w k v = Inl TypeError"

text \<open>Source lines 135 to 143.\<close>

definition with_proxy_info :: "js \<Rightarrow> error + js" where
  "with_proxy_info contract =
     (case get contract ''Proxy'' of
        Inl e \<Rightarrow> Inl e
      | Inr proxy \<Rightarrow>
          if proxy = JStr ''1'' then
            (case get contract ''Implementation'' of
               Inl e \<Rightarrow> Inl e
             | Inr impl \<Rightarrow>
                 assign contract ''proxyInfo''
                   (JObj [(''isProxy'', JBool True), (''implementation'', js_or impl JNull)]))
          else Inr contract)"

text \<open>
  Source lines 104 to 143: what the \<^verbatim>\<open>try\<close> does with the response's data.
\<close>

definition handle_response :: "env \<Rightarrow> int \<Rightarrow> string \<Rightarrow> js \<Rightarrow> params list \<Rightarrow> (error + js) \<times> params list" where
  "handle_response e chainId addr data sent =
     (case get data ''status'' of
        Inl err \<Rightarrow> (Inl err, sent)
      | Inr status \<Rightarrow>
          if status \<noteq> JStr ''1'' then
            (case errorMsg data of
               Inl err \<Rightarrow> (Inl err, sent)
             | Inr msg \<Rightarrow> (Inl (api_failure msg), sent))
          else
            (case get data ''result'' of
               Inl err \<Rightarrow> (Inl err, sent)
             | Inr result \<Rightarrow>
                 if \<not> truthy result \<or> get result ''length'' = Inr (JNum (Finite 0))
                 then (Inl NoContractFound, sent)
                 else
                   (case get result ''0'' of
                      Inl err \<Rightarrow> (Inl err, sent)
                    | Inr contract \<Rightarrow>
                        (case get contract ''SourceCode'' of
                           Inl err \<Rightarrow> (Inl err, sent)
                         | Inr sourceCode \<Rightarrow>
                             if \<not> truthy sourceCode then
                               (case isContract e chainId addr sent of
                                  (Inl err, sent') \<Rightarrow> (Inl err, sent')
                                | (Inr b, sent') \<Rightarrow>
                                    if \<not> b then (Inl (EoaAddress addr), sent')
                                    else (Inl (UnverifiedContract addr), sent'))
                             else (with_proxy_info contract, sent)))))"

text \<open>
  \<open>fetchContractSource\<close>: the key and the chain are checked before the \<^verbatim>\<open>try\<close>. Its
  \<^verbatim>\<open>catch\<close> turns a transport error that carries a response into an HTTP error and
  rethrows every other error as it is.
\<close>

definition fetchContractSource :: "env \<Rightarrow> int \<Rightarrow> string \<Rightarrow> params list \<Rightarrow> (error + js) \<times> params list" where
  "fetchContractSource e chainId addr sent =
     (case getApiKey e of
        Inl err \<Rightarrow> (Inl err, sent)
      | Inr key \<Rightarrow>
          (case validateChainId chainId of
             Inl err \<Rightarrow> (Inl err, sent)
           | Inr config \<Rightarrow>
               (let request = source_request chainId addr key
                in (case axios_get e request of
                      Inl (WithResponse status statusText) \<Rightarrow>
                        (Inl (HttpError status statusText), sent @ [request])
                    | Inl (WithoutResponse m) \<Rightarrow> (Inl (NetworkError m), sent @ [request])
                    | Inr data \<Rightarrow> handle_response e chainId addr data (sent @ [request])))))"

section \<open>The writer: saveContractFiles\<close>

text \<open>
  The file system is a state of any type with the two operations the writer calls:
  \<^verbatim>\<open>fs.mkdir(p, {recursive: true})\<close> and \<^verbatim>\<open>fs.writeFile(p, data, 'utf-8')\<close>. Each
  returns the new state or the error it throws.
\<close>

record 's filesystem =
  fs_mkdir :: "string \<Rightarrow> 's \<Rightarrow> error + 's"
  fs_writeFile :: "string \<Rightarrow> js \<Rightarrow> 's \<Rightarrow> error + 's"

text \<open>The loop of source lines 209 to 217, with the paths saved so far.\<close>

fun write_files ::
  "'s filesystem \<Rightarrow> string \<Rightarrow> decoded_file list \<Rightarrow> string list \<Rightarrow> 's \<Rightarrow> error + string list \<times> 's"
where
  "write_files fs localPath [] savedFiles s = Inr (savedFiles, s)"
| "write_files fs localPath (f # files) savedFiles s =
     (let filePath = path_join localPath (path f); fileDir = path_dirname filePath
      in (case fs_mkdir fs fileDir s of
            Inl e \<Rightarrow> Inl e
          | Inr s1 \<Rightarrow>
              (case fs_writeFile fs filePath (content f) s1 of
                 Inl e \<Rightarrow> Inl e
               | Inr s2 \<Rightarrow> write_files fs localPath files (savedFiles @ [filePath]) s2)))"

text \<open>Source lines 220 to 236: the object that is written to metadata.json.\<close>

definition metadata :: "host \<Rightarrow> js \<Rightarrow> js" where
  "metadata h contract =
     JObj
       ([(''contractName'', field contract ''ContractName''),
         (''compilerVersion'', field contract ''CompilerVersion''),
         (''optimizationUsed'', JBool (field contract ''OptimizationUsed'' = JStr ''1'')),
         (''runs'', js_or (JNum (host_parseInt h (field contract ''Runs''))) (JNum (Finite 0))),
         (''evmVersion'', js_or (field contract ''EVMVersion'') (JStr ''default'')),
         (''library'', js_or (field contract ''Library'') (JStr '''')),
         (''licenseType'', js_or (field contract ''LicenseType'') (JStr '''')),
         (''proxy'', js_or (field contract ''Proxy'') (JStr ''0'')),
         (''implementation'', js_or (field contract ''Implementation'') (JStr '''')),
         (''swarmSource'', js_or (field contract ''SwarmSource'') (JStr ''''))]
        @ (if truthy (field contract ''proxyInfo'')
           then [(''proxyInfo'', field contract ''proxyInfo'')] else []))"

text \<open>
  \<open>saveContractFiles\<close>. A \<^verbatim>\<open>SourceCode\<close> that is no string has no
  \<^verbatim>\<open>startsWith\<close>, and calling it throws.
\<close>

definition saveContractFiles ::
  "'s filesystem \<Rightarrow> host \<Rightarrow> js \<Rightarrow> string \<Rightarrow> 's \<Rightarrow> error + string list \<times> 's"
where
  "saveContractFiles fs h contract localPath s =
     (case get contract ''SourceCode'' of
        Inl e \<Rightarrow> Inl e
      | Inr sourceCode \<Rightarrow>
          (case (case sourceCode of JStr src \<Rightarrow> parseSourceCode (host_parse h) src | _ \<Rightarrow> Inl TypeError) of
             Inl e \<Rightarrow> Inl e
           | Inr files \<Rightarrow>
               (case fs_mkdir fs localPath s of
                  Inl e \<Rightarrow> Inl e
                | Inr s1 \<Rightarrow>
                    (case write_files fs localPath files [] s1 of
                       Inl e \<Rightarrow> Inl e
                     | Inr (savedFiles, s2) \<Rightarrow>
                         (let metadataPath = path_join localPath ''metadata.json''
                          in (case fs_writeFile fs metadataPath
                                     (JStr (host_stringify h (metadata h contract))) s2 of
                                Inl e \<Rightarrow> Inl e
                              | Inr s3 \<Rightarrow> Inr (savedFiles @ [metadataPath], s3)))))))"

text \<open>
  A file system to run the writer on: it keeps the directories made and the files
  written, in order, and refuses data that is no string, as Node does.
\<close>

datatype fs_entry = Dir string | File string string

definition memory_fs :: "fs_entry list filesystem" where
  "memory_fs =
     \<lparr>fs_mkdir = (\<lambda>p s. Inr (s @ [Dir p])),
      fs_writeFile = (\<lambda>p data s. case data of JStr text \<Rightarrow> Inr (s @ [File p text]) | _ \<Rightarrow> Inl TypeError)\<rparr>"

section \<open>Sample environments\<close>

text \<open>
  Responses of the shape the explorer sends, and a client that has its key and whose
  transport answers the request for the source with one value and the probe with another.
\<close>

definition success_response :: "js \<Rightarrow> js" where
  "success_response entry =
     JObj [(''status'', JStr ''1''), (''message'', JStr ''OK''), (''result'', JArr [entry])]"

definition failure_response :: "string \<Rightarrow> string \<Rightarrow> js" where
  "failure_response message result =
     JObj [(''status'', JStr ''0''), (''message'', JStr message), (''result'', JStr result)]"

definition bytecode_response :: "string \<Rightarrow> js" where
  "bytecode_response code =
     JObj [(''jsonrpc'', JStr ''2.0''), (''id'', JNum (Finite 1)), (''result'', JStr code)]"

definition unverified_entry :: js where
  "unverified_entry =
     JObj [(''SourceCode'', JStr []), (''ABI'', JStr ''Contract source code not verified''),
           (''ContractName'', JStr []), (''CompilerVersion'', JStr []),
           (''Proxy'', JStr ''0''), (''Implementation'', JStr [])]"

definition verified_entry :: "string \<Rightarrow> string \<Rightarrow> js" where
  "verified_entry proxy implementation =
     JObj [(''SourceCode'', JStr ''contract Token {}''), (''ContractName'', JStr ''Token''),
           (''CompilerVersion'', JStr ''v0.8.19+commit.7dd6d404''),
           (''OptimizationUsed'', JStr ''1''), (''Runs'', JStr ''200''),
           (''Proxy'', JStr proxy), (''Implementation'', JStr implementation)]"

definition answers :: "js \<Rightarrow> transport_error + js \<Rightarrow> params \<Rightarrow> transport_error + js" where
  "answers source probe p = (if action p = ''getsourcecode'' then Inr source else probe)"

definition client_env :: "(params \<Rightarrow> transport_error + js) \<Rightarrow> env" where
  "client_env transport = \<lparr>apiKey = Some ''KEY'', keyFile = Inl ''ENOENT'', axios_get = transport\<rparr>"

definition no_key_env :: env where
  "no_key_env =
     \<lparr>apiKey = None, keyFile = Inl ''ENOENT: no such file or directory'',
      axios_get = (\<lambda>p. Inl (WithoutResponse ''not reached''))\<rparr>"

section \<open>The JSON reader and its counter\<close>

lemma length_skip_ws: "length (skip_ws s) \<le> length s"
  by (simp add: skip_ws_def length_dropWhile_le)

lemma skip_ws_Cons_length: "skip_ws s = c # cs \<Longrightarrow> length cs < length s"
  using length_skip_ws [of s] by simp

lemma parse_chars_consumes: "parse_chars acc s = Some (str, r) \<Longrightarrow> length r < length s"
proof (induction acc s arbitrary: str r rule: parse_chars.induct)
  case (1 acc)
  then show ?case by simp
next
  case (2 acc c)
  then show ?case by (simp split: if_splits)
next
  case (3 acc c e cs)
  show ?case
  proof (cases "c = CHR 0x22")
    case True
    with 3 show ?thesis by simp
  next
    case nq: False
    show ?thesis
    proof (cases "c = CHR 0x5C")
      case True
      show ?thesis
      proof (cases "e = CHR ''u''")
        case u: True
        with 3(4) nq True obtain x where x: "unicode_escape (take 4 cs) = Some x"
          "parse_chars (acc @ [x]) (drop 4 cs) = Some (str, r)"
          by (auto split: option.splits)
        from "3.IH"(1) [OF nq True u x(1) x(2)] show ?thesis by simp
      next
        case nu: False
        with 3(4) nq True obtain x where x: "unescape e = Some x"
          "parse_chars (acc @ [x]) cs = Some (str, r)"
          by (auto split: option.splits)
        from "3.IH"(2) [OF nq True nu x(1) x(2)] show ?thesis by simp
      qed
    next
      case nb: False
      with 3(4) nq have c: "\<not> (of_char c :: nat) < 32" "parse_chars (acc @ [c]) (e # cs) = Some (str, r)"
        by (auto split: if_splits)
      from "3.IH"(3) [OF nq nb c(1) c(2)] show ?thesis by simp
    qed
  qed
qed

lemma dropWhile_shorter: "takeWhile P s \<noteq> [] \<Longrightarrow> length (dropWhile P s) < length s"
proof -
  assume "takeWhile P s \<noteq> []"
  moreover have "length (takeWhile P s) + length (dropWhile P s) = length s"
    by (metis length_append takeWhile_dropWhile_id)
  ultimately show ?thesis by (cases "takeWhile P s") auto
qed

lemma take_sign_length: "take_sign s = (neg, r) \<Longrightarrow> length r \<le> length s"
  by (auto simp: take_sign_def split: if_splits)

lemma take_fraction_length: "take_fraction s = Some (fp, r) \<Longrightarrow> length r \<le> length s"
  using length_dropWhile_le [of is_digit "tl s"]
  by (auto simp: take_fraction_def split: if_splits)

lemma take_exponent_length:
  assumes "take_exponent s = Some (e, r)"
  shows "length r \<le> length s"
proof (cases "s \<noteq> [] \<and> hd s \<in> set ''eE''")
  case False
  with assms show ?thesis by (auto simp: take_exponent_def)
next
  case True
  define t where "t = (if tl s \<noteq> [] \<and> hd (tl s) = CHR ''+'' then (False, tl (tl s)) else take_sign (tl s))"
  have "length (snd t) \<le> length s"
    using take_sign_length [of "tl s" "fst t" "snd t"] by (auto simp: t_def)
  moreover from assms True have "r = dropWhile is_digit (snd t)"
    by (auto simp: take_exponent_def t_def split: prod.splits if_splits)
  ultimately show ?thesis
    using length_dropWhile_le [of is_digit "snd t"] by simp
qed

lemma parse_number_consumes:
  assumes "parse_number s = Some (x, r)"
  shows "length r < length s"
proof -
  obtain neg s1 where t: "take_sign s = (neg, s1)" by (cases "take_sign s")
  with assms obtain fp s2 e where
    h: "takeWhile is_digit s1 \<noteq> []" "take_fraction (dropWhile is_digit s1) = Some (fp, s2)"
       "take_exponent s2 = Some (e, r)"
    by (auto simp: parse_number_def split: if_splits option.splits)
  from t have "length s1 \<le> length s" by (rule take_sign_length)
  moreover from h(1) have "length (dropWhile is_digit s1) < length s1" by (rule dropWhile_shorter)
  moreover from h(2) have "length s2 \<le> length (dropWhile is_digit s1)" by (rule take_fraction_length)
  moreover from h(3) have "length r \<le> length s2" by (rule take_exponent_length)
  ultimately show ?thesis by simp
qed

lemma parse_scalar_consumes:
  assumes "parse_scalar s = Some (v, r)"
  shows "length r < length s"
proof (cases "prefix [CHR 0x22] s")
  case True
  with assms obtain str where "parse_chars [] (tl s) = Some (str, r)"
    by (auto simp: parse_scalar_def split: option.splits)
  then have "length r < length (tl s)" by (rule parse_chars_consumes)
  then show ?thesis by simp
next
  case nq: False
  show ?thesis
  proof (cases "prefix ''true'' s \<or> prefix ''false'' s \<or> prefix ''null'' s")
    case True
    then have "4 \<le> length s" by (auto dest: prefix_length_le)
    with assms nq True show ?thesis
      by (auto simp: parse_scalar_def split: if_splits)
  next
    case False
    with assms nq obtain x where "parse_number s = Some (x, r)"
      by (auto simp: parse_scalar_def split: option.splits)
    then show ?thesis by (rule parse_number_consumes)
  qed
qed

lemma parse_key_consumes:
  assumes "parse_key s = Some (k, cs)"
  shows "length cs < length s"
proof -
  from assms obtain q qs r c where
    h: "skip_ws s = q # qs" "parse_chars [] qs = Some (k, r)" "skip_ws r = c # cs"
    by (auto simp: parse_key_def split: list.splits option.splits if_splits)
  from h(1) have "length qs < length s" by (rule skip_ws_Cons_length)
  moreover from h(2) have "length r < length qs" by (rule parse_chars_consumes)
  moreover from h(3) have "length cs < length r" by (rule skip_ws_Cons_length)
  ultimately show ?thesis by simp
qed

lemma parse_value_Suc_cases:
  assumes "parse_value (Suc n) s = Some x"
  obtains (empty_object) cs ds where "skip_ws s = CHR ''{'' # cs" "skip_ws cs = CHR ''}'' # ds"
      "x = (JObj [], ds)"
  | (object) cs d ds where "skip_ws s = CHR ''{'' # cs" "skip_ws cs = d # ds" "d \<noteq> CHR ''}''"
      "parse_members n [] cs = Some x"
  | (empty_array) cs ds where "skip_ws s = CHR ''['' # cs" "skip_ws cs = CHR '']'' # ds"
      "x = (JArr [], ds)"
  | (array) cs d ds where "skip_ws s = CHR ''['' # cs" "skip_ws cs = d # ds" "d \<noteq> CHR '']''"
      "parse_elements n [] cs = Some x"
  | (scalar) c cs where "skip_ws s = c # cs" "c \<noteq> CHR ''{''" "c \<noteq> CHR ''[''"
      "parse_scalar (c # cs) = Some x"
  using assms by (auto split: list.splits if_splits)

lemma parse_elements_Suc_cases:
  assumes "parse_elements (Suc n) acc s = Some x"
  obtains (more) v r cs where "parse_value n s = Some (v, r)" "skip_ws r = CHR '','' # cs"
      "parse_elements n (acc @ [v]) cs = Some x"
  | (last) v r cs where "parse_value n s = Some (v, r)" "skip_ws r = CHR '']'' # cs"
      "x = (JArr (acc @ [v]), cs)"
  using assms by (auto split: list.splits if_splits option.splits)

lemma parse_members_Suc_cases:
  assumes "parse_members (Suc n) acc s = Some x"
  obtains (more) k cs v r ds where "parse_key s = Some (k, cs)" "parse_value n cs = Some (v, r)"
      "skip_ws r = CHR '','' # ds" "parse_members n (set_property acc k v) ds = Some x"
  | (last) k cs v r ds where "parse_key s = Some (k, cs)" "parse_value n cs = Some (v, r)"
      "skip_ws r = CHR ''}'' # ds" "x = (JObj (set_property acc k v), ds)"
  using assms by (auto split: list.splits if_splits option.splits)

lemma fuel_bound:
  shows "parse_value n s = Some (v, r) \<Longrightarrow>
           length r < length s
           \<and> (\<forall>m. 2 * (length s - length r) \<le> m \<longrightarrow> parse_value m s = Some (v, r))"
    and "parse_elements n acc s = Some (v, r) \<Longrightarrow>
           length r < length s
           \<and> (\<forall>m. 2 * (length s - length r) \<le> m \<longrightarrow> parse_elements m acc s = Some (v, r))"
    and "parse_members n kvs s = Some (v, r) \<Longrightarrow>
           length r < length s
           \<and> (\<forall>m. 2 * (length s - length r) \<le> m \<longrightarrow> parse_members m kvs s = Some (v, r))"
proof (induction n arbitrary: s acc kvs v r)
  case 0
  { case 1 then show ?case by simp }
  { case 2 then show ?case by simp }
  { case 3 then show ?case by simp }
next
  case (Suc n)
  { case 1
    from 1 show ?case
    proof (cases rule: parse_value_Suc_cases)
      case (empty_object cs ds)
      then have l: "length ds < length cs" "length cs < length s"
        by (auto dest: skip_ws_Cons_length)
      have "parse_value m s = Some (v, r)" if "2 * (length s - length r) \<le> m" for m
      proof -
        from that l empty_object(3) obtain m' where "m = Suc m'" by (cases m) auto
        with empty_object show ?thesis by simp
      qed
      with l empty_object(3) show ?thesis by simp
    next
      case (object cs d ds)
      from Suc.IH(3) [OF object(4)] have ih: "length r < length cs"
        "\<And>m. 2 * (length cs - length r) \<le> m \<Longrightarrow> parse_members m [] cs = Some (v, r)"
        by simp_all
      from object(1) have l: "length cs < length s" by (rule skip_ws_Cons_length)
      have "parse_value m s = Some (v, r)" if "2 * (length s - length r) \<le> m" for m
      proof -
        from that l ih(1) obtain m' where m: "m = Suc m'" "2 * (length cs - length r) \<le> m'"
          by (cases m) auto
        with object ih(2) show ?thesis by simp
      qed
      with l ih(1) show ?thesis by simp
    next
      case (empty_array cs ds)
      then have l: "length ds < length cs" "length cs < length s"
        by (auto dest: skip_ws_Cons_length)
      have "parse_value m s = Some (v, r)" if "2 * (length s - length r) \<le> m" for m
      proof -
        from that l empty_array(3) obtain m' where "m = Suc m'" by (cases m) auto
        with empty_array show ?thesis by simp
      qed
      with l empty_array(3) show ?thesis by simp
    next
      case (array cs d ds)
      from Suc.IH(2) [OF array(4)] have ih: "length r < length cs"
        "\<And>m. 2 * (length cs - length r) \<le> m \<Longrightarrow> parse_elements m [] cs = Some (v, r)"
        by simp_all
      from array(1) have l: "length cs < length s" by (rule skip_ws_Cons_length)
      have "parse_value m s = Some (v, r)" if "2 * (length s - length r) \<le> m" for m
      proof -
        from that l ih(1) obtain m' where m: "m = Suc m'" "2 * (length cs - length r) \<le> m'"
          by (cases m) auto
        with array ih(2) show ?thesis by simp
      qed
      with l ih(1) show ?thesis by simp
    next
      case (scalar c cs)
      from scalar(4) have "length r < length (c # cs)" by (rule parse_scalar_consumes)
      with scalar(1) have l: "length r < length s"
        using length_skip_ws [of s] by simp
      have "parse_value m s = Some (v, r)" if "2 * (length s - length r) \<le> m" for m
      proof -
        from that l obtain m' where "m = Suc m'" by (cases m) auto
        with scalar show ?thesis by simp
      qed
      with l show ?thesis by simp
    qed }
  { case 2
    from 2 show ?case
    proof (cases rule: parse_elements_Suc_cases)
      case (more w t cs)
      from Suc.IH(1) [OF more(1)] have v: "length t < length s"
        "\<And>m. 2 * (length s - length t) \<le> m \<Longrightarrow> parse_value m s = Some (w, t)"
        by simp_all
      from Suc.IH(2) [OF more(3)] have e: "length r < length cs"
        "\<And>m. 2 * (length cs - length r) \<le> m \<Longrightarrow> parse_elements m (acc @ [w]) cs = Some (v, r)"
        by simp_all
      from more(2) have l: "length cs < length t" by (rule skip_ws_Cons_length)
      have "parse_elements m acc s = Some (v, r)" if "2 * (length s - length r) \<le> m" for m
      proof -
        from that l v(1) e(1) obtain m' where m: "m = Suc m'"
          "2 * (length s - length t) \<le> m'" "2 * (length cs - length r) \<le> m'"
          by (cases m) auto
        with more v(2) e(2) show ?thesis by simp
      qed
      with l v(1) e(1) show ?thesis by simp
    next
      case (last w t cs)
      from Suc.IH(1) [OF last(1)] have v: "length t < length s"
        "\<And>m. 2 * (length s - length t) \<le> m \<Longrightarrow> parse_value m s = Some (w, t)"
        by simp_all
      from last(2) have l: "length cs < length t" by (rule skip_ws_Cons_length)
      have "parse_elements m acc s = Some (v, r)" if "2 * (length s - length r) \<le> m" for m
      proof -
        from that l v(1) last(3) obtain m' where m: "m = Suc m'" "2 * (length s - length t) \<le> m'"
          by (cases m) auto
        with last v(2) show ?thesis by simp
      qed
      with l v(1) last(3) show ?thesis by simp
    qed }
  { case 3
    from 3 show ?case
    proof (cases rule: parse_members_Suc_cases)
      case (more k cs w t ds)
      from more(1) have lk: "length cs < length s" by (rule parse_key_consumes)
      from Suc.IH(1) [OF more(2)] have v: "length t < length cs"
        "\<And>m. 2 * (length cs - length t) \<le> m \<Longrightarrow> parse_value m cs = Some (w, t)"
        by simp_all
      from Suc.IH(3) [OF more(4)] have e: "length r < length ds"
        "\<And>m. 2 * (length ds - length r) \<le> m \<Longrightarrow>
               parse_members m (set_property kvs k w) ds = Some (v, r)"
        by simp_all
      from more(3) have l: "length ds < length t" by (rule skip_ws_Cons_length)
      have "parse_members m kvs s = Some (v, r)" if "2 * (length s - length r) \<le> m" for m
      proof -
        from that l lk v(1) e(1) obtain m' where m: "m = Suc m'"
          "2 * (length cs - length t) \<le> m'" "2 * (length ds - length r) \<le> m'"
          by (cases m) auto
        with more v(2) e(2) show ?thesis by simp
      qed
      with l lk v(1) e(1) show ?thesis by simp
    next
      case (last k cs w t ds)
      from last(1) have lk: "length cs < length s" by (rule parse_key_consumes)
      from Suc.IH(1) [OF last(2)] have v: "length t < length cs"
        "\<And>m. 2 * (length cs - length t) \<le> m \<Longrightarrow> parse_value m cs = Some (w, t)"
        by simp_all
      from last(3) have l: "length ds < length t" by (rule skip_ws_Cons_length)
      have "parse_members m kvs s = Some (v, r)" if "2 * (length s - length r) \<le> m" for m
      proof -
        from that l lk v(1) last(4) obtain m' where m: "m = Suc m'" "2 * (length cs - length t) \<le> m'"
          by (cases m) auto
        with last v(2) show ?thesis by simp
      qed
      with l lk v(1) last(4) show ?thesis by simp
    qed }
qed

text \<open>
  What json_parse returns does not depend on where its counter starts: a value that some
  counter reaches is the value json_parse returns.
\<close>

lemma json_parse_any_counter:
  assumes "parse_value n text = Some (v, r)" "skip_ws r = []"
  shows "json_parse text = Some v"
proof -
  from fuel_bound(1) [OF assms(1)]
  have b: "\<forall>m. 2 * (length text - length r) \<le> m \<longrightarrow> parse_value m text = Some (v, r)"
    by (rule conjunct2)
  have "2 * (length text - length r) \<le> 2 * length text + 2" by simp
  with b have "parse_value (2 * length text + 2) text = Some (v, r)" by blast
  with assms(2) show ?thesis by (simp add: json_parse_def del: parse_value.simps)
qed

lemma json_parse_iff:
  "json_parse text = Some v \<longleftrightarrow> (\<exists>n r. parse_value n text = Some (v, r) \<and> skip_ws r = [])"
proof
  assume "json_parse text = Some v"
  then obtain r where "parse_value (2 * length text + 2) text = Some (v, r)" "skip_ws r = []"
    by (auto simp: json_parse_def simp del: parse_value.simps split: option.splits if_splits)
  then show "\<exists>n r. parse_value n text = Some (v, r) \<and> skip_ws r = []" by blast
next
  assume "\<exists>n r. parse_value n text = Some (v, r) \<and> skip_ws r = []"
  then show "json_parse text = Some v" using json_parse_any_counter by blast
qed

section \<open>Reading properties\<close>

lemma get_Inl_iff: "get v k = Inl e \<longleftrightarrow> (v = JUndefined \<or> v = JNull) \<and> e = TypeError"
  by (cases v) auto

lemma get_Inr_not_null: "get v k = Inr w \<Longrightarrow> v \<noteq> JUndefined \<and> v \<noteq> JNull"
  by (cases v) auto

section \<open>The decoder\<close>

lemma startsWith_brace2: "startsWith s ''{{'' \<Longrightarrow> startsWith s ''{''"
  by (cases s) (auto simp: startsWith_def)

lemma push_file_emitted:
  "snd kv \<noteq> JNull \<Longrightarrow> snd kv \<noteq> JUndefined \<Longrightarrow> push_file kv = Inr (emitted kv)"
  by (cases "snd kv") (auto simp: push_file_def emitted_def field_def)

lemma push_file_throws:
  "snd kv = JNull \<or> snd kv = JUndefined \<Longrightarrow> push_file kv = Inl TypeError"
  by (auto simp: push_file_def)

lemma collect_files_emitted:
  "\<forall>kv \<in> set es. snd kv \<noteq> JNull \<and> snd kv \<noteq> JUndefined \<Longrightarrow> collect_files es = Inr (map emitted es)"
  by (induction es) (auto simp: push_file_emitted)

lemma collect_files_throws:
  "\<exists>kv \<in> set es. snd kv = JNull \<or> snd kv = JUndefined \<Longrightarrow> collect_files es = Inl TypeError"
proof (induction es)
  case Nil
  then show ?case by simp
next
  case (Cons kv es)
  show ?case
  proof (cases "snd kv = JNull \<or> snd kv = JUndefined")
    case True
    then show ?thesis by (simp add: push_file_throws)
  next
    case False
    with Cons.prems have "\<exists>kv \<in> set es. snd kv = JNull \<or> snd kv = JUndefined" by auto
    with Cons.IH False show ?thesis by (simp add: push_file_emitted)
  qed
qed

lemma collect_files_cases:
  "collect_files es =
     (if \<exists>kv \<in> set es. snd kv = JNull \<or> snd kv = JUndefined then Inl TypeError
      else Inr (map emitted es))"
  using collect_files_throws [of es] collect_files_emitted [of es] by auto

lemma cleanPath_strips:
  assumes "ds \<noteq> []" "list_all is_version_char ds"
  shows "cleanPath (''solc_'' @ ds @ CHR ''/'' # rest) = rest"
proof -
  have nv: "\<not> is_version_char (CHR ''/'')" by (simp add: is_version_char_def is_digit_def)
  from assms(2) have tw: "takeWhile is_version_char (ds @ CHR ''/'' # rest) = ds"
    using nv by (simp add: list_all_iff takeWhile_append2)
  from assms(2) have dw: "dropWhile is_version_char (ds @ CHR ''/'' # rest) = CHR ''/'' # rest"
    using nv by (simp add: list_all_iff dropWhile_append2)
  show ?thesis using assms(1) tw dw by (simp add: cleanPath_def match_solc_def)
qed

lemma cleanPath_keeps: "\<not> prefix ''solc_'' p \<Longrightarrow> cleanPath p = p"
  by (simp add: cleanPath_def match_solc_def)

lemma parseSourceCode_plain:
  "\<not> startsWith raw ''{'' \<Longrightarrow> parseSourceCode JSON_parse raw = Inr (single_file raw)"
  using startsWith_brace2 [of raw] by (auto simp: parseSourceCode_def)

lemma multi_unparsable:
  "startsWith raw ''{{'' \<Longrightarrow> JSON_parse (slice_1_m1 raw) = None \<Longrightarrow>
     parseSourceCode JSON_parse raw = Inr (single_file raw)"
  by (simp add: parseSourceCode_def multi_file_body_def)

lemma multi_entries:
  assumes "startsWith raw ''{{''" "JSON_parse (slice_1_m1 raw) = Some parsed"
    "get parsed ''sources'' = Inr s" "entries (js_or s (JObj [])) = Inr es"
  shows "parseSourceCode JSON_parse raw =
           (if \<exists>kv \<in> set es. snd kv = JNull \<or> snd kv = JUndefined
            then Inr (single_file raw) else Inr (map emitted es))"
  using assms by (simp add: parseSourceCode_def multi_file_body_def collect_files_cases)

text \<open>
  Claim C7. For every input string that does not start with an opening brace, the
  decoder returns exactly one file: its path is Contract.sol and its content is the
  input, unchanged.
\<close>

theorem single_file_for_plain_text:
  "\<not> startsWith raw ''{'' \<Longrightarrow>
     parseSourceCode JSON_parse raw = Inr [\<lparr>path = ''Contract.sol'', content = JStr raw\<rparr>]"
  using parseSourceCode_plain [of raw JSON_parse] by (simp add: single_file_def)

theorem single_file_for_plain_text_witness:
  "\<not> startsWith ''pragma solidity ^0.8.0;'' ''{''
   \<and> parseSourceCode json_parse ''pragma solidity ^0.8.0;''
       = Inr [\<lparr>path = ''Contract.sol'', content = JStr ''pragma solidity ^0.8.0;''\<rparr>]"
proof -
  have h: "\<not> startsWith ''pragma solidity ^0.8.0;'' ''{''" by (simp add: startsWith_def)
  show ?thesis using h single_file_for_plain_text [OF h, of json_parse] by simp
qed

lemma decoded_files_origin:
  assumes "parseSourceCode JSON_parse raw = Inr files"
  shows "files = [\<lparr>path = ''Contract.sol'', content = JStr raw\<rparr>]
       \<or> (\<exists>parsed s es.
             (startsWith raw ''{{'' \<and> JSON_parse (slice_1_m1 raw) = Some parsed
              \<or> \<not> startsWith raw ''{{'' \<and> startsWith raw ''{'' \<and> JSON_parse raw = Some parsed)
             \<and> get parsed ''sources'' = Inr s \<and> entries (js_or s (JObj [])) = Inr es
             \<and> (\<forall>kv \<in> set es. snd kv \<noteq> JNull \<and> snd kv \<noteq> JUndefined)
             \<and> files = map emitted es)"
proof (cases "files = single_file raw")
  case True
  then show ?thesis by (simp add: single_file_def)
next
  case False
  show ?thesis
  proof (cases "startsWith raw ''{{''")
    case True
    with assms False obtain parsed s es where
      h: "JSON_parse (slice_1_m1 raw) = Some parsed" "get parsed ''sources'' = Inr s"
         "entries (js_or s (JObj [])) = Inr es" "collect_files es = Inr files"
      by (auto simp: parseSourceCode_def multi_file_body_def split: sum.splits option.splits)
    from h(4) have "(\<forall>kv \<in> set es. snd kv \<noteq> JNull \<and> snd kv \<noteq> JUndefined) \<and> files = map emitted es"
      by (auto simp: collect_files_cases split: if_splits)
    with h(1,2,3) True show ?thesis by blast
  next
    case nb: False
    with assms False obtain parsed s es where
      h: "JSON_parse raw = Some parsed" "get parsed ''sources'' = Inr s" "truthy s"
         "entries s = Inr es" "collect_files es = Inr files" "startsWith raw ''{''"
      by (auto simp: parseSourceCode_def standard_json_body_def
               split: sum.splits option.splits if_splits)
    from h(5) have c: "(\<forall>kv \<in> set es. snd kv \<noteq> JNull \<and> snd kv \<noteq> JUndefined) \<and> files = map emitted es"
      by (auto simp: collect_files_cases split: if_splits)
    from h(3,4) have e: "entries (js_or s (JObj [])) = Inr es" by (simp add: js_or_def)
    from h(1,2,6) e c nb show ?thesis by blast
  qed
qed

text \<open>
  Claim C5, amended. The decoder is total and never throws: for every input string and
  whatever the parser does with it, it returns a list of files. Whenever the body of
  either \<^verbatim>\<open>try\<close> throws (text that is no JSON, a parsed value that is null, a null
  entry among the sources), the result is the single file Contract.sol holding the input.
  Input that is malformed in another way is not turned into that single file: a result
  that is not the single file has one file per entry of the parsed sources, whatever
  their shape, so none at all when there are no entries; the content of a file is the
  JavaScript value \<^verbatim>\<open>content.content || ''\<close>, which is the empty string when the entry
  has no truthy content and the content itself otherwise, a string or not.
\<close>

theorem decoder_never_throws:
  "(\<exists>files. parseSourceCode JSON_parse raw = Inr files)
   \<and> (startsWith raw ''{{'' \<and> (\<exists>e. multi_file_body JSON_parse raw = Inl e) \<longrightarrow>
        parseSourceCode JSON_parse raw = Inr [\<lparr>path = ''Contract.sol'', content = JStr raw\<rparr>])
   \<and> (\<not> startsWith raw ''{{'' \<and> (\<exists>e. standard_json_body JSON_parse raw = Inl e) \<longrightarrow>
        parseSourceCode JSON_parse raw = Inr [\<lparr>path = ''Contract.sol'', content = JStr raw\<rparr>])
   \<and> (JSON_parse (slice_1_m1 raw) = None \<longrightarrow> multi_file_body JSON_parse raw = Inl SyntaxError)
   \<and> (JSON_parse raw = None \<longrightarrow> standard_json_body JSON_parse raw = Inl SyntaxError)
   \<and> (\<forall>files. parseSourceCode JSON_parse raw = Inr files \<longrightarrow>
        files = [\<lparr>path = ''Contract.sol'', content = JStr raw\<rparr>]
        \<or> (\<exists>parsed s es.
              (startsWith raw ''{{'' \<and> JSON_parse (slice_1_m1 raw) = Some parsed
               \<or> \<not> startsWith raw ''{{'' \<and> startsWith raw ''{'' \<and> JSON_parse raw = Some parsed)
              \<and> get parsed ''sources'' = Inr s \<and> entries (js_or s (JObj [])) = Inr es
              \<and> (\<forall>kv \<in> set es. snd kv \<noteq> JNull \<and> snd kv \<noteq> JUndefined)
              \<and> files = map emitted es))
   \<and> (\<forall>kv. content (emitted kv) =
          (if truthy (field (snd kv) ''content'') then field (snd kv) ''content'' else JStr []))"
proof -
  have total: "(\<exists>files. parseSourceCode JSON_parse raw = Inr files)
   \<and> (startsWith raw ''{{'' \<and> (\<exists>e. multi_file_body JSON_parse raw = Inl e) \<longrightarrow>
        parseSourceCode JSON_parse raw = Inr [\<lparr>path = ''Contract.sol'', content = JStr raw\<rparr>])
   \<and> (\<not> startsWith raw ''{{'' \<and> (\<exists>e. standard_json_body JSON_parse raw = Inl e) \<longrightarrow>
        parseSourceCode JSON_parse raw = Inr [\<lparr>path = ''Contract.sol'', content = JStr raw\<rparr>])
   \<and> (JSON_parse (slice_1_m1 raw) = None \<longrightarrow> multi_file_body JSON_parse raw = Inl SyntaxError)
   \<and> (JSON_parse raw = None \<longrightarrow> standard_json_body JSON_parse raw = Inl SyntaxError)"
    by (auto simp: parseSourceCode_def single_file_def multi_file_body_def standard_json_body_def
             split: sum.splits option.splits)
  have shape: "\<forall>kv. content (emitted kv) =
          (if truthy (field (snd kv) ''content'') then field (snd kv) ''content'' else JStr [])"
    by (simp add: emitted_def js_or_def)
  have origin: "\<forall>files. parseSourceCode JSON_parse raw = Inr files \<longrightarrow>
        files = [\<lparr>path = ''Contract.sol'', content = JStr raw\<rparr>]
        \<or> (\<exists>parsed s es.
              (startsWith raw ''{{'' \<and> JSON_parse (slice_1_m1 raw) = Some parsed
               \<or> \<not> startsWith raw ''{{'' \<and> startsWith raw ''{'' \<and> JSON_parse raw = Some parsed)
              \<and> get parsed ''sources'' = Inr s \<and> entries (js_or s (JObj [])) = Inr es
              \<and> (\<forall>kv \<in> set es. snd kv \<noteq> JNull \<and> snd kv \<noteq> JUndefined)
              \<and> files = map emitted es)"
    by (intro allI impI) (rule decoded_files_origin)
  from total origin shape show ?thesis
    by (elim conjE, intro conjI) assumption+
qed

theorem decoder_never_throws_witness:
  \<open>(\<exists>files. parseSourceCode json_parse ''{{not json}}'' = Inr files)
   \<and> multi_file_body json_parse ''{{not json}}'' = Inl SyntaxError
   \<and> parseSourceCode json_parse ''{{not json}}''
       = Inr [\<lparr>path = ''Contract.sol'', content = JStr ''{{not json}}''\<rparr>]
   \<and> standard_json_body json_parse ''{"language":"Solidity","sources":{"A.sol":null}}'' = Inl TypeError
   \<and> parseSourceCode json_parse ''{"language":"Solidity","sources":{"A.sol":null}}''
       = Inr [\<lparr>path = ''Contract.sol'',
               content = JStr ''{"language":"Solidity","sources":{"A.sol":null}}''\<rparr>]
   \<and> parseSourceCode json_parse ''{{"sources":{"a.sol":{"content":"x"},"b.sol":{}}}}''
       = Inr [\<lparr>path = ''a.sol'', content = JStr ''x''\<rparr>, \<lparr>path = ''b.sol'', content = JStr []\<rparr>]
   \<and> (\<exists>es. [\<lparr>path = ''a.sol'', content = JStr ''x''\<rparr>, \<lparr>path = ''b.sol'', content = JStr []\<rparr>]
              = map emitted es)
   \<and> content (emitted (''a.sol'', JObj [(''content'', JStr ''x'')])) = JStr ''x''
   \<and> content (emitted (''b.sol'', JObj [])) = JStr []\<close>
proof -
  let ?a = "''{{not json}}''"
  let ?b = \<open>''{"language":"Solidity","sources":{"A.sol":null}}''\<close>
  let ?c = \<open>''{{"sources":{"a.sol":{"content":"x"},"b.sol":{}}}}''\<close>
  let ?fa = "\<lparr>path = ''a.sol'', content = JStr ''x''\<rparr>"
  let ?fb = "\<lparr>path = ''b.sol'', content = JStr []\<rparr>"
  have sa: "startsWith ?a ''{{''" and sb: "\<not> startsWith ?b ''{{''"
    by (simp_all add: startsWith_def)
  have pa: "json_parse (slice_1_m1 ?a) = None" by code_simp
  have tb: "standard_json_body json_parse ?b = Inl TypeError" by code_simp
  have rc: "parseSourceCode json_parse ?c = Inr [?fa, ?fb]" by code_simp
  from decoder_never_throws [of json_parse ?a] pa
  have ma: "multi_file_body json_parse ?a = Inl SyntaxError" by blast
  from decoder_never_throws [of json_parse ?a] sa ma
  have ra: "parseSourceCode json_parse ?a = Inr [\<lparr>path = ''Contract.sol'', content = JStr ?a\<rparr>]"
    by blast
  from decoder_never_throws [of json_parse ?b] sb tb
  have rb: "parseSourceCode json_parse ?b = Inr [\<lparr>path = ''Contract.sol'', content = JStr ?b\<rparr>]"
    by blast
  have ne: "[?fa, ?fb] \<noteq> [\<lparr>path = ''Contract.sol'', content = JStr ?c\<rparr>]" by simp
  from decoder_never_throws [of json_parse ?c, THEN conjunct2, THEN conjunct2, THEN conjunct2,
      THEN conjunct2, THEN conjunct2, THEN conjunct1, rule_format, OF rc] ne
  have me: "\<exists>es. [?fa, ?fb] = map emitted es"
    by (elim disjE exE conjE) (erule notE, assumption, (rule exI, assumption)+)
  have fa: "field (JObj [(''content'', JStr ''x'')]) ''content'' = JStr ''x''"
    and fb: "field (JObj []) ''content'' = JUndefined"
    by (simp_all add: field_def)
  note sh = decoder_never_throws [of json_parse ?c, THEN conjunct2, THEN conjunct2, THEN conjunct2,
      THEN conjunct2, THEN conjunct2, THEN conjunct2, rule_format]
  from sh [of "(''a.sol'', JObj [(''content'', JStr ''x'')])"] fa
  have ca: "content (emitted (''a.sol'', JObj [(''content'', JStr ''x'')])) = JStr ''x''"
    by simp
  from sh [of "(''b.sol'', JObj [])"] fb
  have cb: "content (emitted (''b.sol'', JObj [])) = JStr []"
    by simp
  from ma ra tb rb rc me ca cb show ?thesis by (simp del: map_eq_Cons_conv Cons_eq_map_conv)
qed

text \<open>
  The claim as first stated fails on input of unexpected shape that makes nothing throw.
  A content that is no string is emitted as it is, a sources value that is an empty
  array gives no file at all, and an entry that is a string, not an object, gives a file
  with empty content; none of these is turned into the single file Contract.sol.
\<close>

theorem decoder_keeps_malformed_shapes:
  \<open>parseSourceCode json_parse ''{{"sources":{"a.sol":{"content":true}}}}''
     = Inr [\<lparr>path = ''a.sol'', content = JBool True\<rparr>]
   \<and> parseSourceCode json_parse ''{{"sources":[]}}'' = Inr []
   \<and> parseSourceCode json_parse ''{{"sources":{"a.sol":"text"}}}''
       = Inr [\<lparr>path = ''a.sol'', content = JStr []\<rparr>]
   \<and> parseSourceCode json_parse ''{"language":"Solidity","sources":{"a.sol":{"content":["x"]}}}''
       = Inr [\<lparr>path = ''a.sol'', content = JArr [JStr ''x'']\<rparr>]\<close>
  by code_simp

text \<open>
  Claim C2, amended. For every input string that begins with two opening braces, the
  decoder drops exactly the first and the last character and parses the rest as JSON. If
  the parse fails, it returns exactly one file, Contract.sol, whose content is the whole
  input. If the parse succeeds and the parsed object has a sources mapping none of whose
  values is null, it returns one file per entry, in order, the path being the key
  without a leading segment \<^verbatim>\<open>solc_<digits and dots>/\<close> (a key that does not begin with
  \<^verbatim>\<open>solc_\<close> is kept as it is). If a value of the mapping is null, reading its
  content throws, and the decoder returns the single file Contract.sol holding the whole
  input.
\<close>

theorem multi_file_decoding:
  assumes "startsWith raw ''{{''"
  shows "(JSON_parse (slice_1_m1 raw) = None \<longrightarrow>
            parseSourceCode JSON_parse raw = Inr [\<lparr>path = ''Contract.sol'', content = JStr raw\<rparr>])
       \<and> (\<forall>parsed es. JSON_parse (slice_1_m1 raw) = Some parsed
              \<and> get parsed ''sources'' = Inr (JObj es) \<longrightarrow>
            parseSourceCode JSON_parse raw =
              (if \<exists>kv \<in> set es. snd kv = JNull \<or> snd kv = JUndefined
               then Inr [\<lparr>path = ''Contract.sol'', content = JStr raw\<rparr>]
               else Inr (map emitted es)))
       \<and> (\<forall>ds rest. ds \<noteq> [] \<and> list_all is_version_char ds \<longrightarrow>
            cleanPath (''solc_'' @ ds @ CHR ''/'' # rest) = rest)
       \<and> (\<forall>p. \<not> prefix ''solc_'' p \<longrightarrow> cleanPath p = p)"
proof (intro conjI allI impI)
  assume "JSON_parse (slice_1_m1 raw) = None"
  with assms show "parseSourceCode JSON_parse raw = Inr [\<lparr>path = ''Contract.sol'', content = JStr raw\<rparr>]"
    by (simp add: multi_unparsable single_file_def)
next
  fix parsed es
  assume h: "JSON_parse (slice_1_m1 raw) = Some parsed \<and> get parsed ''sources'' = Inr (JObj es)"
  have "entries (js_or (JObj es) (JObj [])) = Inr es" by (simp add: js_or_def)
  with assms h multi_entries [of raw JSON_parse parsed "JObj es" es]
  show "parseSourceCode JSON_parse raw =
          (if \<exists>kv \<in> set es. snd kv = JNull \<or> snd kv = JUndefined
           then Inr [\<lparr>path = ''Contract.sol'', content = JStr raw\<rparr>]
           else Inr (map emitted es))"
    by (simp add: single_file_def)
next
  fix ds rest
  assume "ds \<noteq> [] \<and> list_all is_version_char ds"
  then show "cleanPath (''solc_'' @ ds @ CHR ''/'' # rest) = rest"
    using cleanPath_strips by blast
next
  fix p :: string
  assume "\<not> prefix ''solc_'' p"
  then show "cleanPath p = p" by (rule cleanPath_keeps)
qed

theorem multi_file_decoding_witness:
  \<open>startsWith ''{{"language":"Solidity","sources":{"solc_0.8.19/Contract.sol":{"content":"X"}}}}'' ''{{''
   \<and> parseSourceCode json_parse
        ''{{"language":"Solidity","sources":{"solc_0.8.19/Contract.sol":{"content":"X"}}}}''
       = Inr [\<lparr>path = ''Contract.sol'', content = JStr ''X''\<rparr>]
   \<and> parseSourceCode json_parse ''{{not json}}''
       = Inr [\<lparr>path = ''Contract.sol'', content = JStr ''{{not json}}''\<rparr>]
   \<and> cleanPath ''solc_0.8.19/Contract.sol'' = ''Contract.sol''
   \<and> cleanPath ''contracts/solc_0.8/Token.sol'' = ''contracts/solc_0.8/Token.sol''\<close>
proof -
  let ?raw = \<open>''{{"language":"Solidity","sources":{"solc_0.8.19/Contract.sol":{"content":"X"}}}}''\<close>
  let ?es = "[(''solc_0.8.19/Contract.sol'', JObj [(''content'', JStr ''X'')])]"
  let ?parsed = "JObj [(''language'', JStr ''Solidity''), (''sources'', JObj ?es)]"
  have sw: "startsWith ?raw ''{{''" by (simp add: startsWith_def)
  have p: "json_parse (slice_1_m1 ?raw) = Some ?parsed" by code_simp
  have g: "get ?parsed ''sources'' = Inr (JObj ?es)" by simp
  have v: "list_all is_version_char ''0.8.19''" by (simp add: is_version_char_def is_digit_def)
  note m = multi_file_decoding [OF sw, of json_parse]
  from m p g have "parseSourceCode json_parse ?raw =
      (if \<exists>kv \<in> set ?es. snd kv = JNull \<or> snd kv = JUndefined
       then Inr [\<lparr>path = ''Contract.sol'', content = JStr ?raw\<rparr>] else Inr (map emitted ?es))"
    by blast
  moreover from m v
  have c: "cleanPath (''solc_'' @ ''0.8.19'' @ CHR ''/'' # ''Contract.sol'') = ''Contract.sol''"
    by blast
  ultimately
  have 1: "parseSourceCode json_parse ?raw = Inr [\<lparr>path = ''Contract.sol'', content = JStr ''X''\<rparr>]"
    by (simp add: emitted_def field_def js_or_def)
  have sw2: "startsWith ''{{not json}}'' ''{{''" by (simp add: startsWith_def)
  have p2: "json_parse (slice_1_m1 ''{{not json}}'') = None" by code_simp
  from multi_file_decoding [OF sw2, of json_parse] p2
  have 2: "parseSourceCode json_parse ''{{not json}}''
             = Inr [\<lparr>path = ''Contract.sol'', content = JStr ''{{not json}}''\<rparr>]"
    by blast
  have "\<not> prefix ''solc_'' ''contracts/solc_0.8/Token.sol''" by simp
  with m have 3: "cleanPath ''contracts/solc_0.8/Token.sol'' = ''contracts/solc_0.8/Token.sol''"
    by blast
  from sw 1 2 c 3 show ?thesis by simp
qed

text \<open>
  The claim as first stated fails where a value of the sources mapping is null: the rest
  parses, the mapping has the two entries a.sol and b.sol, and the decoder returns the
  one file Contract.sol with the whole input instead of a file for each entry.
\<close>

theorem multi_file_null_entry:
  \<open>json_parse (slice_1_m1 ''{{"sources":{"a.sol":{"content":"x"},"b.sol":null}}}'')
     = Some (JObj [(''sources'', JObj [(''a.sol'', JObj [(''content'', JStr ''x'')]), (''b.sol'', JNull)])])
   \<and> parseSourceCode json_parse ''{{"sources":{"a.sol":{"content":"x"},"b.sol":null}}}''
       = Inr [\<lparr>path = ''Contract.sol'',
               content = JStr ''{{"sources":{"a.sol":{"content":"x"},"b.sol":null}}}''\<rparr>]\<close>
  by code_simp

text \<open>
  Claim C6, amended. For every input string that begins with one opening brace and not
  two: if the parse fails, or the parsed object's language is not the string Solidity,
  or its sources are absent or falsy, the decoder returns the single file Contract.sol
  holding the input. If the language is Solidity and the sources are a mapping none of
  whose values is null, it returns one file per entry, in order, with the same rule for
  the path, and an absent or falsy content becomes the empty string. If a value of the
  mapping is null, it returns the single file Contract.sol.
\<close>

theorem standard_json_decoding:
  assumes "startsWith raw ''{''" "\<not> startsWith raw ''{{''"
  shows "(JSON_parse raw = None \<longrightarrow>
            parseSourceCode JSON_parse raw = Inr [\<lparr>path = ''Contract.sol'', content = JStr raw\<rparr>])
       \<and> (\<forall>parsed l. JSON_parse raw = Some parsed \<and> get parsed ''language'' = Inr l
              \<and> l \<noteq> JStr ''Solidity'' \<longrightarrow>
            parseSourceCode JSON_parse raw = Inr [\<lparr>path = ''Contract.sol'', content = JStr raw\<rparr>])
       \<and> (\<forall>parsed s. JSON_parse raw = Some parsed \<and> get parsed ''language'' = Inr (JStr ''Solidity'')
              \<and> get parsed ''sources'' = Inr s \<and> \<not> truthy s \<longrightarrow>
            parseSourceCode JSON_parse raw = Inr [\<lparr>path = ''Contract.sol'', content = JStr raw\<rparr>])
       \<and> (\<forall>parsed es. JSON_parse raw = Some parsed \<and> get parsed ''language'' = Inr (JStr ''Solidity'')
              \<and> get parsed ''sources'' = Inr (JObj es) \<longrightarrow>
            parseSourceCode JSON_parse raw =
              (if \<exists>kv \<in> set es. snd kv = JNull \<or> snd kv = JUndefined
               then Inr [\<lparr>path = ''Contract.sol'', content = JStr raw\<rparr>]
               else Inr (map emitted es)))
       \<and> (\<forall>k. emitted (k, JObj []) = \<lparr>path = cleanPath k, content = JStr []\<rparr>)"
  using assms
  by (auto simp: parseSourceCode_def standard_json_body_def single_file_def collect_files_cases
    emitted_def field_def js_or_def)

theorem standard_json_decoding_witness:
  \<open>startsWith ''{"language":"Solidity","sources":{"A.sol":{"content":"a"},"B.sol":{}}}'' ''{''
   \<and> \<not> startsWith ''{"language":"Solidity","sources":{"A.sol":{"content":"a"},"B.sol":{}}}'' ''{{''
   \<and> parseSourceCode json_parse ''{"language":"Solidity","sources":{"A.sol":{"content":"a"},"B.sol":{}}}''
       = Inr [\<lparr>path = ''A.sol'', content = JStr ''a''\<rparr>, \<lparr>path = ''B.sol'', content = JStr []\<rparr>]
   \<and> parseSourceCode json_parse ''{"language":"Vyper","sources":{"A.vy":{"content":"a"}}}''
       = Inr [\<lparr>path = ''Contract.sol'',
               content = JStr ''{"language":"Vyper","sources":{"A.vy":{"content":"a"}}}''\<rparr>]\<close>
proof -
  let ?raw = \<open>''{"language":"Solidity","sources":{"A.sol":{"content":"a"},"B.sol":{}}}''\<close>
  let ?es = "[(''A.sol'', JObj [(''content'', JStr ''a'')]), (''B.sol'', JObj [])]"
  let ?parsed = "JObj [(''language'', JStr ''Solidity''), (''sources'', JObj ?es)]"
  let ?vy = \<open>''{"language":"Vyper","sources":{"A.vy":{"content":"a"}}}''\<close>
  let ?vparsed = "JObj [(''language'', JStr ''Vyper''),
                        (''sources'', JObj [(''A.vy'', JObj [(''content'', JStr ''a'')])])]"
  have s1: "startsWith ?raw ''{''" and s2: "\<not> startsWith ?raw ''{{''"
    and v1: "startsWith ?vy ''{''" and v2: "\<not> startsWith ?vy ''{{''"
    by (simp_all add: startsWith_def)
  have p: "json_parse ?raw = Some ?parsed" by code_simp
  have g: "get ?parsed ''language'' = Inr (JStr ''Solidity'')" "get ?parsed ''sources'' = Inr (JObj ?es)"
    by simp_all
  from standard_json_decoding [OF s1 s2, of json_parse] p g
  have "parseSourceCode json_parse ?raw =
      (if \<exists>kv \<in> set ?es. snd kv = JNull \<or> snd kv = JUndefined
       then Inr [\<lparr>path = ''Contract.sol'', content = JStr ?raw\<rparr>] else Inr (map emitted ?es))"
    by blast
  then have 1: "parseSourceCode json_parse ?raw
      = Inr [\<lparr>path = ''A.sol'', content = JStr ''a''\<rparr>, \<lparr>path = ''B.sol'', content = JStr []\<rparr>]"
    by (simp add: emitted_def field_def js_or_def cleanPath_keeps)
  have pv: "json_parse ?vy = Some ?vparsed" by code_simp
  have gv: "get ?vparsed ''language'' = Inr (JStr ''Vyper'')" "JStr ''Vyper'' \<noteq> JStr ''Solidity''"
    by simp_all
  from standard_json_decoding [OF v1 v2, of json_parse] pv gv
  have 2: "parseSourceCode json_parse ?vy = Inr [\<lparr>path = ''Contract.sol'', content = JStr ?vy\<rparr>]"
    by blast
  from s1 s2 1 2 show ?thesis by simp
qed

text \<open>
  The claim as first stated fails where a value of the sources mapping is null: the
  text parses, the language is Solidity, the mapping has the two entries A.sol and
  B.sol, and the decoder returns the one file Contract.sol with the whole input instead
  of a file for each entry.
\<close>

theorem standard_json_null_entry:
  \<open>json_parse ''{"language":"Solidity","sources":{"A.sol":{"content":"a"},"B.sol":null}}''
     = Some (JObj [(''language'', JStr ''Solidity''),
                   (''sources'', JObj [(''A.sol'', JObj [(''content'', JStr ''a'')]), (''B.sol'', JNull)])])
   \<and> parseSourceCode json_parse ''{"language":"Solidity","sources":{"A.sol":{"content":"a"},"B.sol":null}}''
       = Inr [\<lparr>path = ''Contract.sol'',
               content = JStr ''{"language":"Solidity","sources":{"A.sol":{"content":"a"},"B.sol":null}}''\<rparr>]\<close>
  by code_simp

section \<open>Paths of the decoded files\<close>

lemma split_on_not_Nil: "split_on c xs \<noteq> []"
  by (induction xs) (auto split: list.splits)

lemma split_on_append: "split_on c (xs @ c # ys) = split_on c xs @ split_on c ys"
proof (induction xs)
  case Nil
  then show ?case by simp
next
  case (Cons x xs)
  then show ?case
    using split_on_not_Nil [of c xs] by (cases "split_on c xs") auto
qed

lemma split_on_sep_free: "s \<in> set (split_on c xs) \<Longrightarrow> c \<notin> set s"
proof (induction xs arbitrary: s)
  case Nil
  then show ?case by simp
next
  case (Cons x xs)
  then show ?case
    using split_on_not_Nil [of c xs]
    by (cases "split_on c xs") (auto split: if_splits)
qed

lemma split_on_single: "c \<notin> set xs \<Longrightarrow> split_on c xs = [xs]"
  by (induction xs) auto

lemma split_on_join:
  "segs \<noteq> [] \<Longrightarrow> \<forall>s \<in> set segs. CHR ''/'' \<notin> set s \<Longrightarrow>
     split_on (CHR ''/'') (join_segments segs) = segs"
proof (induction segs rule: join_segments.induct)
  case 1
  then show ?case by simp
next
  case (2 s)
  then show ?case by (simp add: split_on_single)
next
  case (3 s t ss)
  then have "split_on (CHR ''/'') (s @ CHR ''/'' # join_segments (t # ss))
               = split_on (CHR ''/'') s @ t # ss"
    by (simp add: split_on_append del: join_segments.simps)
  with 3 show ?case by (simp add: split_on_single)
qed

lemma normalize_segments_append:
  "normalize_segments a res (xs @ ys) = normalize_segments a (normalize_segments a res xs) ys"
  by (induction xs arbitrary: res) auto

lemma normalize_segments_no_dotdot:
  "''..'' \<notin> set ys \<Longrightarrow>
     normalize_segments a res ys = res @ filter (\<lambda>s. s \<noteq> [] \<and> s \<noteq> ''.'') ys"
  by (induction ys arbitrary: res) auto

lemma normalize_segments_plain:
  "list_all plain_segment res \<Longrightarrow> \<forall>s \<in> set segs. CHR ''/'' \<notin> set s \<Longrightarrow>
     list_all plain_segment (normalize_segments a res segs)"
proof (induction segs arbitrary: res)
  case Nil
  then show ?case by simp
next
  case (Cons seg segs)
  have b: "list_all plain_segment (butlast res)"
    using Cons.prems(1) by (auto simp: list_all_iff dest: in_set_butlastD)
  have d: "plain_segment ''..''" by (simp add: plain_segment_def)
  have s: "seg \<noteq> [] \<Longrightarrow> seg \<noteq> ''.'' \<Longrightarrow> plain_segment seg"
    using Cons.prems(2) by (simp add: plain_segment_def)
  show ?case
    using Cons.IH [of res] Cons.IH [of "butlast res"] Cons.IH [of "res @ [''..'']"]
      Cons.IH [of "res @ [seg]"] Cons.prems b d s
    by (auto simp del: butlast.simps)
qed

lemma join_segments_Nil_iff:
  "list_all plain_segment segs \<Longrightarrow> join_segments segs = [] \<longleftrightarrow> segs = []"
  by (induction segs rule: join_segments.induct) (auto simp: plain_segment_def)

lemma hd_join_segments:
  "list_all plain_segment (s # ss) \<Longrightarrow> hd (join_segments (s # ss)) = hd s"
  by (cases ss) (auto simp: plain_segment_def)

lemma segments_of_plain:
  assumes "list_all plain_segment segs" "segs \<noteq> []"
    and that: "pre = [] \<or> pre = ''/''" "post = [] \<or> post = ''/''"
  shows "segments (pre @ join_segments segs @ post) = segs"
proof -
  have sf: "\<forall>s \<in> set segs. CHR ''/'' \<notin> set s"
    using assms(1) by (auto simp: list_all_iff plain_segment_def)
  have keep: "filter (\<lambda>s. s \<noteq> [] \<and> s \<noteq> ''.'') segs = segs"
    using assms(1) by (auto simp: list_all_iff plain_segment_def filter_id_conv)
  have j: "split_on (CHR ''/'') (join_segments segs) = segs"
    using assms(2) sf by (rule split_on_join)
  have jp: "split_on (CHR ''/'') (join_segments segs @ ''/'') = segs @ [[]]"
    using split_on_append [of "CHR ''/''" "join_segments segs" "[]"] j by simp
  from that j jp keep show ?thesis by (auto simp: segments_def)
qed

lemma segments_path_normalize:
  "segments (path_normalize p) = normalize_segments (\<not> is_absolute p) [] (split_on (CHR ''/'') p)"
proof (cases "p = []")
  case True
  then show ?thesis by (simp add: path_normalize_def segments_def is_absolute_def)
next
  case False
  let ?segs = "normalize_segments (\<not> is_absolute p) [] (split_on (CHR ''/'') p)"
  have pl: "list_all plain_segment ?segs"
    by (rule normalize_segments_plain) (auto dest: split_on_sep_free)
  show ?thesis
  proof (cases "?segs = []")
    case True
    with False show ?thesis by (simp add: path_normalize_def segments_def Let_def)
  next
    case ne: False
    with pl have "join_segments ?segs \<noteq> []" by (simp add: join_segments_Nil_iff)
    with False ne show ?thesis
      using segments_of_plain [OF pl ne, of "[]" "[]"] segments_of_plain [OF pl ne, of "[]" "''/''"]
        segments_of_plain [OF pl ne, of "''/''" "[]"] segments_of_plain [OF pl ne, of "''/''" "''/''"]
      by (cases "is_absolute p") (simp_all add: path_normalize_def Let_def)
  qed
qed

lemma is_absolute_path_normalize: "is_absolute (path_normalize p) = is_absolute p"
proof (cases "p = []")
  case True
  then show ?thesis by (simp add: path_normalize_def is_absolute_def)
next
  case False
  let ?segs = "normalize_segments (\<not> is_absolute p) [] (split_on (CHR ''/'') p)"
  have pl: "list_all plain_segment ?segs"
    by (rule normalize_segments_plain) (auto dest: split_on_sep_free)
  show ?thesis
  proof (cases ?segs)
    case Nil
    with False show ?thesis by (simp add: path_normalize_def is_absolute_def Let_def)
  next
    case (Cons s ss)
    with pl have h: "hd (join_segments ?segs) = hd s" "s \<noteq> []" "CHR ''/'' \<notin> set s"
      "join_segments ?segs \<noteq> []"
      using hd_join_segments [of s ss] join_segments_Nil_iff [of ?segs]
      by (auto simp: plain_segment_def)
    then have "hd s \<noteq> CHR ''/''" by (cases s) auto
    with h False show ?thesis
      by (auto simp: path_normalize_def is_absolute_def Let_def)
  qed
qed

lemma normalize_segments_keeps_front:
  "res \<noteq> [] \<Longrightarrow> hd res = ''..'' \<Longrightarrow>
     normalize_segments a res ys \<noteq> [] \<and> hd (normalize_segments a res ys) = ''..''"
proof (induction ys arbitrary: res)
  case Nil
  then show ?case by simp
next
  case (Cons seg segs)
  have b: "butlast res \<noteq> [] \<and> hd (butlast res) = ''..''" if "last res \<noteq> ''..''"
    using Cons.prems that by (cases res) (auto split: if_splits)
  have p: "res @ [x] \<noteq> [] \<and> hd (res @ [x]) = ''..''" for x
    using Cons.prems by simp
  show ?case
    using Cons.IH [of res] Cons.IH [of "butlast res"] Cons.IH [of "res @ [''..'']"]
      Cons.IH [of "res @ [seg]"] Cons.prems b p
    by (cases a) (simp_all del: butlast.simps)
qed

lemma normalize_segments_under:
  "''..'' \<notin> set res \<Longrightarrow> ''..'' \<notin> set (normalize_segments True res ys) \<Longrightarrow>
     normalize_segments a (r @ res) ys = r @ normalize_segments True res ys"
proof (induction ys arbitrary: res)
  case Nil
  then show ?case by simp
next
  case (Cons seg segs)
  show ?case
  proof (cases "seg = [] \<or> seg = ''.''")
    case True
    with Cons show ?thesis by simp
  next
    case plain: False
    show ?thesis
    proof (cases "seg = ''..''")
      case False
      with plain Cons.prems have "''..'' \<notin> set (res @ [seg])"
        and "''..'' \<notin> set (normalize_segments True (res @ [seg]) segs)"
        by simp_all
      then have "normalize_segments a (r @ res @ [seg]) segs
                   = r @ normalize_segments True (res @ [seg]) segs"
        by (rule Cons.IH)
      with plain False show ?thesis by simp
    next
      case True
      show ?thesis
      proof (cases "res = []")
        case empty: True
        have "''..'' \<in> set (normalize_segments True [''..''] segs)"
          using normalize_segments_keeps_front [of "[''..'']" True segs]
          by (metis hd_in_set list.sel(1) not_Cons_self2)
        with Cons.prems(2) True empty show ?thesis by simp
      next
        case False
        then have "last res \<in> set res" by (rule last_in_set)
        with Cons.prems(1) have l: "last res \<noteq> ''..''" by auto
        from Cons.prems(1) have "''..'' \<notin> set (butlast res)"
          by (auto dest: in_set_butlastD)
        moreover from Cons.prems(2) True False l
        have "''..'' \<notin> set (normalize_segments True (butlast res) segs)" by simp
        ultimately have "normalize_segments a (r @ butlast res) segs
                           = r @ normalize_segments True (butlast res) segs"
          by (rule Cons.IH)
        with True False l show ?thesis by (simp add: butlast_append)
      qed
    qed
  qed
qed

lemma path_join_stays_under:
  assumes "base \<noteq> []" "\<not> climbs rel"
  shows "stays_under base (path_join base rel)"
proof (cases "rel = []")
  case True
  with assms(1) have "path_join base rel = path_normalize base"
    by (simp add: path_join_def)
  then show ?thesis
    by (simp add: stays_under_def is_absolute_path_normalize)
next
  case False
  let ?j = "base @ CHR ''/'' # rel"
  let ?r = "segments (path_normalize base)"
  let ?t = "normalize_segments True [] (split_on (CHR ''/'') rel)"
  from assms(1) False have pj: "path_join base rel = path_normalize ?j"
    by (simp add: path_join_def)
  from assms(1) have ab: "is_absolute ?j = is_absolute base"
    by (cases base) (auto simp: is_absolute_def)
  from assms(2) have nt: "''..'' \<notin> set ?t" by (simp add: climbs_def)
  have "segments (path_normalize ?j)
          = normalize_segments (\<not> is_absolute base) []
              (split_on (CHR ''/'') base @ split_on (CHR ''/'') rel)"
    by (simp add: segments_path_normalize ab split_on_append)
  also have "\<dots> = normalize_segments (\<not> is_absolute base) (?r @ []) (split_on (CHR ''/'') rel)"
    by (simp add: normalize_segments_append segments_path_normalize)
  also have "\<dots> = ?r @ ?t"
    using nt by (intro normalize_segments_under) simp_all
  finally have t: "segments (path_join base rel) = ?r @ ?t"
    by (simp add: pj)
  with nt show ?thesis
    by (simp add: stays_under_def pj is_absolute_path_normalize ab)
qed

lemma plain_path_does_not_climb:
  "''..'' \<notin> set (split_on (CHR ''/'') rel) \<Longrightarrow> \<not> climbs rel"
  by (simp add: climbs_def normalize_segments_no_dotdot)

lemma write_files_paths:
  "write_files fs localPath files saved s = Inr (paths, s') \<Longrightarrow>
     paths = saved @ map (\<lambda>f. path_join localPath (path f)) files"
proof (induction files arbitrary: saved s)
  case Nil
  then show ?case by simp
next
  case (Cons f files)
  from Cons.prems obtain s1 s2 where
    "write_files fs localPath files (saved @ [path_join localPath (path f)]) s2 = Inr (paths, s')"
    by (auto simp: Let_def split: sum.splits)
  from Cons.IH [OF this] show ?case by simp
qed

lemma save_paths:
  assumes "get contract ''SourceCode'' = Inr (JStr raw)"
    and "parseSourceCode (host_parse h) raw = Inr files"
    and "saveContractFiles fs h contract localPath s = Inr (paths, s')"
  shows "paths = map (\<lambda>f. path_join localPath (path f)) files @ [path_join localPath ''metadata.json'']"
proof -
  from assms obtain s1 saved s2 where
    w: "write_files fs localPath files [] s1 = Inr (saved, s2)"
    and p: "paths = saved @ [path_join localPath ''metadata.json'']"
    by (auto simp: saveContractFiles_def Let_def split: sum.splits prod.splits)
  from write_files_paths [OF w] p show ?thesis by simp
qed

lemma metadata_does_not_climb: "\<not> climbs ''metadata.json''"
  by (simp add: climbs_def)

text \<open>
  Claim C4, amended. The decoder does not check a path: the files it emits are the single
  file Contract.sol, or one file per entry of the sources parsed from the input (from
  the input without its first and last character when it begins with two braces), whose
  path is the key of the entry without its wrapper directory. When the output directory
  is not the empty string and the path of a file does not climb, that is, normalized on
  its own it keeps no segment \<^verbatim>\<open>..\<close> (so \<^verbatim>\<open>a/../b\<close> is allowed and \<^verbatim>\<open>../x\<close> is
  not), the target \<^verbatim>\<open>path.join(localPath, path)\<close> stays under the output directory;
  this holds for a path that starts with a slash as well, since \<^verbatim>\<open>path.join\<close>
  appends it to the directory. When no emitted path climbs, the paths a successful save
  returns are these targets and metadata.json, and every one stays under the output
  directory.
\<close>

theorem decoded_paths_stay_under_root:
  assumes "parseSourceCode JSON_parse raw = Inr files"
  shows "(files = [\<lparr>path = ''Contract.sol'', content = JStr raw\<rparr>]
          \<or> (\<exists>parsed s es.
                (startsWith raw ''{{'' \<and> JSON_parse (slice_1_m1 raw) = Some parsed
                 \<or> \<not> startsWith raw ''{{'' \<and> startsWith raw ''{'' \<and> JSON_parse raw = Some parsed)
                \<and> get parsed ''sources'' = Inr s \<and> entries (js_or s (JObj [])) = Inr es
                \<and> map path files = map (\<lambda>kv. cleanPath (fst kv)) es))
       \<and> (\<forall>f \<in> set files. localPath \<noteq> [] \<and> \<not> climbs (path f) \<longrightarrow>
            stays_under localPath (path_join localPath (path f)))
       \<and> (host_parse h = JSON_parse \<and> get contract ''SourceCode'' = Inr (JStr raw)
            \<and> localPath \<noteq> [] \<and> (\<forall>f \<in> set files. \<not> climbs (path f))
            \<and> saveContractFiles fs h contract localPath s = Inr (paths, s') \<longrightarrow>
          paths = map (\<lambda>f. path_join localPath (path f)) files @ [path_join localPath ''metadata.json'']
          \<and> (\<forall>p \<in> set paths. stays_under localPath p))"
proof (intro conjI)
  from decoded_files_origin [OF assms]
  show "files = [\<lparr>path = ''Contract.sol'', content = JStr raw\<rparr>]
          \<or> (\<exists>parsed s es.
                (startsWith raw ''{{'' \<and> JSON_parse (slice_1_m1 raw) = Some parsed
                 \<or> \<not> startsWith raw ''{{'' \<and> startsWith raw ''{'' \<and> JSON_parse raw = Some parsed)
                \<and> get parsed ''sources'' = Inr s \<and> entries (js_or s (JObj [])) = Inr es
                \<and> map path files = map (\<lambda>kv. cleanPath (fst kv)) es)"
  proof
    assume "files = [\<lparr>path = ''Contract.sol'', content = JStr raw\<rparr>]"
    then show ?thesis by simp
  next
    assume "\<exists>parsed s es.
             (startsWith raw ''{{'' \<and> JSON_parse (slice_1_m1 raw) = Some parsed
              \<or> \<not> startsWith raw ''{{'' \<and> startsWith raw ''{'' \<and> JSON_parse raw = Some parsed)
             \<and> get parsed ''sources'' = Inr s \<and> entries (js_or s (JObj [])) = Inr es
             \<and> (\<forall>kv \<in> set es. snd kv \<noteq> JNull \<and> snd kv \<noteq> JUndefined)
             \<and> files = map emitted es"
    then obtain parsed s es where
      h: "startsWith raw ''{{'' \<and> JSON_parse (slice_1_m1 raw) = Some parsed
          \<or> \<not> startsWith raw ''{{'' \<and> startsWith raw ''{'' \<and> JSON_parse raw = Some parsed"
         "get parsed ''sources'' = Inr s" "entries (js_or s (JObj [])) = Inr es"
         "files = map emitted es"
      by blast
    from h(4) have "map path files = map (\<lambda>kv. cleanPath (fst kv)) es"
      by (simp add: emitted_def)
    with h(1,2,3) show ?thesis by blast
  qed
next
  show "\<forall>f \<in> set files. localPath \<noteq> [] \<and> \<not> climbs (path f) \<longrightarrow>
          stays_under localPath (path_join localPath (path f))"
    using path_join_stays_under by blast
next
  show "host_parse h = JSON_parse \<and> get contract ''SourceCode'' = Inr (JStr raw)
            \<and> localPath \<noteq> [] \<and> (\<forall>f \<in> set files. \<not> climbs (path f))
            \<and> saveContractFiles fs h contract localPath s = Inr (paths, s') \<longrightarrow>
          paths = map (\<lambda>f. path_join localPath (path f)) files @ [path_join localPath ''metadata.json'']
          \<and> (\<forall>p \<in> set paths. stays_under localPath p)"
  proof (intro impI, elim conjE)
    assume a: "host_parse h = JSON_parse" "get contract ''SourceCode'' = Inr (JStr raw)"
      "localPath \<noteq> []" "\<forall>f \<in> set files. \<not> climbs (path f)"
      "saveContractFiles fs h contract localPath s = Inr (paths, s')"
    from assms a(1) have d: "parseSourceCode (host_parse h) raw = Inr files" by simp
    have p: "paths = map (\<lambda>f. path_join localPath (path f)) files @ [path_join localPath ''metadata.json'']"
      using a(2) d a(5) by (rule save_paths)
    have "stays_under localPath q" if "q \<in> set paths" for q
    proof (cases "q = path_join localPath ''metadata.json''")
      case True
      with a(3) show ?thesis
        using path_join_stays_under [OF _ metadata_does_not_climb] by simp
    next
      case False
      with that p obtain f where "f \<in> set files" "q = path_join localPath (path f)" by auto
      with a(3,4) show ?thesis using path_join_stays_under by blast
    qed
    with p show "paths = map (\<lambda>f. path_join localPath (path f)) files @ [path_join localPath ''metadata.json'']
          \<and> (\<forall>p \<in> set paths. stays_under localPath p)"
      by blast
  qed
qed

theorem decoded_paths_stay_under_root_witness:
  \<open>\<forall>stringify pInt.
     parseSourceCode json_parse
         ''{{"sources":{"solc_0.8.19/lib/Math.sol":{"content":"x"},"a/../b.sol":{"content":"y"}}}}''
       = Inr [\<lparr>path = ''lib/Math.sol'', content = JStr ''x''\<rparr>,
              \<lparr>path = ''a/../b.sol'', content = JStr ''y''\<rparr>]
     \<and> path_join ''/out'' ''lib/Math.sol'' = ''/out/lib/Math.sol''
     \<and> stays_under ''/out'' (path_join ''/out'' ''lib/Math.sol'')
     \<and> path_join ''/out'' ''a/../b.sol'' = ''/out/b.sol''
     \<and> stays_under ''/out'' (path_join ''/out'' ''a/../b.sol'')
     \<and> (\<exists>s'. saveContractFiles memory_fs
                \<lparr>host_parse = json_parse, host_stringify = stringify, host_parseInt = pInt\<rparr>
                (JObj [(''SourceCode'',
                   JStr ''{{"sources":{"solc_0.8.19/lib/Math.sol":{"content":"x"},"a/../b.sol":{"content":"y"}}}}'')])
                ''/out'' []
              = Inr ([''/out/lib/Math.sol'', ''/out/b.sol'', ''/out/metadata.json''], s'))
     \<and> (\<forall>p \<in> set [''/out/lib/Math.sol'', ''/out/b.sol'', ''/out/metadata.json''].
           stays_under ''/out'' p)\<close>
proof (intro allI)
  fix stringify :: "js \<Rightarrow> string" and pInt :: "js \<Rightarrow> number"
  let ?h = "\<lparr>host_parse = json_parse, host_stringify = stringify, host_parseInt = pInt\<rparr>"
  let ?raw = \<open>''{{"sources":{"solc_0.8.19/lib/Math.sol":{"content":"x"},"a/../b.sol":{"content":"y"}}}}''\<close>
  let ?f = "\<lparr>path = ''lib/Math.sol'', content = JStr ''x''\<rparr>"
  let ?g = "\<lparr>path = ''a/../b.sol'', content = JStr ''y''\<rparr>"
  let ?c = "JObj [(''SourceCode'', JStr ?raw)]"
  let ?paths = "[''/out/lib/Math.sol'', ''/out/b.sol'', ''/out/metadata.json'']"
  let ?s = "[Dir ''/out'', Dir ''/out/lib'', File ''/out/lib/Math.sol'' ''x'',
             Dir ''/out'', File ''/out/b.sol'' ''y'',
             File ''/out/metadata.json'' (stringify (metadata ?h ?c))]"
  have d: "parseSourceCode json_parse ?raw = Inr [?f, ?g]" by code_simp
  have n: "\<not> climbs ''lib/Math.sol''" "\<not> climbs ''a/../b.sol''" by code_simp+
  have j: "path_join ''/out'' ''lib/Math.sol'' = ''/out/lib/Math.sol''"
    "path_join ''/out'' ''a/../b.sol'' = ''/out/b.sol''"
    "path_join ''/out'' ''metadata.json'' = ''/out/metadata.json''"
    by code_simp+
  have dn: "path_dirname ''/out/lib/Math.sol'' = ''/out/lib''" "path_dirname ''/out/b.sol'' = ''/out''"
    by code_simp+
  have sv: "saveContractFiles memory_fs ?h ?c ''/out'' [] = Inr (?paths, ?s)"
    by (simp add: saveContractFiles_def d j dn memory_fs_def Let_def)
  note t = decoded_paths_stay_under_root [OF d, where localPath = "''/out''" and h = ?h
      and contract = ?c and fs = memory_fs and s = "[]" and paths = ?paths and s' = ?s]
  from t [THEN conjunct2, THEN conjunct1] n
  have u: "stays_under ''/out'' (path_join ''/out'' ''lib/Math.sol'')"
    "stays_under ''/out'' (path_join ''/out'' ''a/../b.sol'')"
    by simp_all
  have pre: "host_parse ?h = json_parse \<and> get ?c ''SourceCode'' = Inr (JStr ?raw)
      \<and> ''/out'' \<noteq> [] \<and> (\<forall>f \<in> set [?f, ?g]. \<not> climbs (path f))
      \<and> saveContractFiles memory_fs ?h ?c ''/out'' [] = Inr (?paths, ?s)"
    using n sv by simp
  from t [THEN conjunct2, THEN conjunct2, THEN mp, OF pre, THEN conjunct2]
  have w: "\<forall>p \<in> set ?paths. stays_under ''/out'' p" .
  from sv have e: "\<exists>s'. saveContractFiles memory_fs ?h ?c ''/out'' [] = Inr (?paths, s')" by blast
  from d j(1,2) u e w
  show "parseSourceCode json_parse ?raw = Inr [?f, ?g]
     \<and> path_join ''/out'' ''lib/Math.sol'' = ''/out/lib/Math.sol''
     \<and> stays_under ''/out'' (path_join ''/out'' ''lib/Math.sol'')
     \<and> path_join ''/out'' ''a/../b.sol'' = ''/out/b.sol''
     \<and> stays_under ''/out'' (path_join ''/out'' ''a/../b.sol'')
     \<and> (\<exists>s'. saveContractFiles memory_fs ?h ?c ''/out'' [] = Inr (?paths, s'))
     \<and> (\<forall>p \<in> set ?paths. stays_under ''/out'' p)"
    by (intro conjI)
qed

text \<open>
  The claim as first stated fails for a key that climbs with \<^verbatim>\<open>..\<close>: the decoder
  emits it as it is, and the writer, run on the directory /out, makes /etc and writes
  /etc/passwd.
\<close>

theorem decoded_path_escapes_root:
  \<open>parseSourceCode json_parse ''{{"sources":{"../../etc/passwd":{"content":"x"}}}}''
     = Inr [\<lparr>path = ''../../etc/passwd'', content = JStr ''x''\<rparr>]
   \<and> path_join ''/out'' ''../../etc/passwd'' = ''/etc/passwd''
   \<and> \<not> stays_under ''/out'' (path_join ''/out'' ''../../etc/passwd'')
   \<and> write_files memory_fs ''/out'' [\<lparr>path = ''../../etc/passwd'', content = JStr ''x''\<rparr>] [] []
       = Inr ([''/etc/passwd''], [Dir ''/etc'', File ''/etc/passwd'' ''x''])\<close>
  by code_simp

section \<open>The client\<close>

lemma fetch_handles_response:
  "getApiKey e = Inr key \<Longrightarrow> validateChainId chainId = Inr config \<Longrightarrow>
   axios_get e (source_request chainId addr key) = Inr data \<Longrightarrow>
     fetchContractSource e chainId addr sent
       = handle_response e chainId addr data (sent @ [source_request chainId addr key])"
  by (simp add: fetchContractSource_def Let_def)

lemma isContract_verdict:
  "getApiKey e = Inr key \<Longrightarrow>
     isContract e chainId addr sent =
       (Inr (\<not> (\<exists>pdata. axios_get e (probe_request chainId addr key) = Inr pdata
                    \<and> get pdata ''result'' = Inr (JStr ''0x''))),
        sent @ [probe_request chainId addr key])"
  by (auto simp: isContract_def probe_verdict_def Let_def get_Inl_iff split: sum.splits)

lemma getApiKey_client_env: "getApiKey (client_env t) = Inr ''KEY''"
  by (simp add: getApiKey_def client_env_def)

lemma validateChainId_mainnet: "validateChainId 1 = Inr ''Ethereum Mainnet''"
  by (simp add: validateChainId_def CHAIN_CONFIGS_def)

text \<open>
  Claim C1. Take a fetch whose request for the source is answered with status "1" and
  a result whose first entry has an empty or absent SourceCode. Then fetch throws the
  error for an externally owned account when the probe is answered with the result
  "0x", and the error for an unverified contract in every other case: when the probe is
  answered with other bytecode, when the transport throws on the probe, and when the
  answer holds no such result. Two requests have been sent.
\<close>

theorem empty_source_classified_by_probe:
  assumes "getApiKey e = Inr key" "validateChainId chainId = Inr config"
    and "axios_get e (source_request chainId addr key) = Inr data"
    and "get data ''status'' = Inr (JStr ''1'')"
    and "get data ''result'' = Inr result" "truthy result"
    and "get result ''length'' \<noteq> Inr (JNum (Finite 0))"
    and "get result ''0'' = Inr entry"
    and "get entry ''SourceCode'' = Inr sourceCode" "\<not> truthy sourceCode"
  shows "(\<forall>pdata. axios_get e (probe_request chainId addr key) = Inr pdata
            \<and> get pdata ''result'' = Inr (JStr ''0x'') \<longrightarrow>
          fst (fetchContractSource e chainId addr sent) = Inl (EoaAddress addr))
       \<and> (\<forall>pdata code. axios_get e (probe_request chainId addr key) = Inr pdata
            \<and> get pdata ''result'' = Inr (JStr code) \<and> code \<noteq> ''0x'' \<longrightarrow>
          fst (fetchContractSource e chainId addr sent) = Inl (UnverifiedContract addr))
       \<and> (\<forall>err. axios_get e (probe_request chainId addr key) = Inl err \<longrightarrow>
          fst (fetchContractSource e chainId addr sent) = Inl (UnverifiedContract addr))
       \<and> (\<forall>pdata. axios_get e (probe_request chainId addr key) = Inr pdata
            \<and> get pdata ''result'' \<noteq> Inr (JStr ''0x'') \<longrightarrow>
          fst (fetchContractSource e chainId addr sent) = Inl (UnverifiedContract addr))
       \<and> snd (fetchContractSource e chainId addr sent)
           = sent @ [source_request chainId addr key, probe_request chainId addr key]"
proof -
  let ?wallet = "\<exists>pdata. axios_get e (probe_request chainId addr key) = Inr pdata
                   \<and> get pdata ''result'' = Inr (JStr ''0x'')"
  have "fetchContractSource e chainId addr sent
          = handle_response e chainId addr data (sent @ [source_request chainId addr key])"
    using assms(1-3) by (rule fetch_handles_response)
  also have "\<dots> = (Inl (if ?wallet then EoaAddress addr else UnverifiedContract addr),
                  sent @ [source_request chainId addr key, probe_request chainId addr key])"
    using assms(4-10) by (simp add: handle_response_def isContract_verdict [OF assms(1)])
  finally show ?thesis by auto
qed

theorem empty_source_classified_by_probe_witness:
  "fetchContractSource
     (client_env (answers (success_response unverified_entry) (Inr (bytecode_response ''0x''))))
     1 ''0xd8dA6BF26964aF9D7eEd9e03E53415D37aA96045'' []
     = (Inl (EoaAddress ''0xd8dA6BF26964aF9D7eEd9e03E53415D37aA96045''),
        [source_request 1 ''0xd8dA6BF26964aF9D7eEd9e03E53415D37aA96045'' ''KEY'',
         probe_request 1 ''0xd8dA6BF26964aF9D7eEd9e03E53415D37aA96045'' ''KEY''])
   \<and> fst (fetchContractSource
       (client_env (answers (success_response unverified_entry) (Inr (bytecode_response ''0x6080604052''))))
       1 ''0xd8dA6BF26964aF9D7eEd9e03E53415D37aA96045'' [])
     = Inl (UnverifiedContract ''0xd8dA6BF26964aF9D7eEd9e03E53415D37aA96045'')
   \<and> fst (fetchContractSource
       (client_env (answers (success_response unverified_entry) (Inl (WithoutResponse ''timeout''))))
       1 ''0xd8dA6BF26964aF9D7eEd9e03E53415D37aA96045'' [])
     = Inl (UnverifiedContract ''0xd8dA6BF26964aF9D7eEd9e03E53415D37aA96045'')"
proof -
  let ?a = "''0xd8dA6BF26964aF9D7eEd9e03E53415D37aA96045''"
  let ?e = "\<lambda>probe. client_env (answers (success_response unverified_entry) probe)"
  have src: "axios_get (?e probe) (source_request 1 ?a ''KEY'') = Inr (success_response unverified_entry)"
    and prb: "axios_get (?e probe) (probe_request 1 ?a ''KEY'') = probe" for probe
    by (simp_all add: client_env_def answers_def source_request_def probe_request_def)
  have g: "get (success_response unverified_entry) ''status'' = Inr (JStr ''1'')"
    "get (success_response unverified_entry) ''result'' = Inr (JArr [unverified_entry])"
    "truthy (JArr [unverified_entry])"
    "get (JArr [unverified_entry]) ''length'' \<noteq> Inr (JNum (Finite 0))"
    "get unverified_entry ''SourceCode'' = Inr (JStr [])" "\<not> truthy (JStr [])"
    by (simp_all add: success_response_def unverified_entry_def)
  have z: "get (JArr [unverified_entry]) ''0'' = Inr unverified_entry"
    by (simp add: array_index_def is_digit_def decimal_value_def digit_value_def)
  note t = empty_source_classified_by_probe [OF getApiKey_client_env validateChainId_mainnet
      src g(1,2,3,4) z g(5,6), of _ "[]"]
  have r: "get (bytecode_response code) ''result'' = Inr (JStr code)" for code
    by (simp add: bytecode_response_def)
  from t [of "Inr (bytecode_response ''0x'')"] prb r
  have 1: "fst (fetchContractSource (?e (Inr (bytecode_response ''0x''))) 1 ?a []) = Inl (EoaAddress ?a)"
    "snd (fetchContractSource (?e (Inr (bytecode_response ''0x''))) 1 ?a [])
       = [source_request 1 ?a ''KEY'', probe_request 1 ?a ''KEY'']"
    by simp_all
  have ne: "''0x6080604052'' \<noteq> ''0x''" by simp
  from t [of "Inr (bytecode_response ''0x6080604052'')"] prb r ne
  have 2: "fst (fetchContractSource (?e (Inr (bytecode_response ''0x6080604052''))) 1 ?a [])
             = Inl (UnverifiedContract ?a)"
    by blast
  from t [of "Inl (WithoutResponse ''timeout'')"] prb
  have 3: "fst (fetchContractSource (?e (Inl (WithoutResponse ''timeout''))) 1 ?a [])
             = Inl (UnverifiedContract ?a)"
    by blast
  from 1 2 3 show ?thesis by (simp add: prod_eq_iff)
qed

text \<open>
  Claim C3, amended. Take a fetch whose request for the source is answered with a status
  other than "1". The text that is inspected is the message when it is truthy, else
  the result when it is truthy, else a fixed default. When that text is a string, fetch
  throws the invalid-key error if it contains \<^verbatim>\<open>Invalid API Key\<close> or
  \<^verbatim>\<open>invalid API key\<close> in exactly one of these two spellings; otherwise the
  rate-limit error if it contains \<^verbatim>\<open>Max rate limit reached\<close> in exactly this
  spelling; otherwise the API error that carries the text. One request has been sent.
\<close>

theorem failure_classified_by_message:
  assumes "getApiKey e = Inr key" "validateChainId chainId = Inr config"
    and "axios_get e (source_request chainId addr key) = Inr data"
    and "get data ''status'' = Inr status" "status \<noteq> JStr ''1''"
    and "get data ''message'' = Inr message" "get data ''result'' = Inr result"
    and "js_or message (js_or result (JStr ''Failed to fetch contract source'')) = JStr text"
  shows "fetchContractSource e chainId addr sent =
           (Inl (if sublist ''Invalid API Key'' text \<or> sublist ''invalid API key'' text
                 then InvalidApiKey
                 else if sublist ''Max rate limit reached'' text then RateLimited
                 else ApiError (JStr text)),
            sent @ [source_request chainId addr key])"
proof -
  from assms(6-8) have m: "errorMsg data = Inr (JStr text)"
    by (auto simp: errorMsg_def js_or_def split: if_splits)
  have f: "api_failure (JStr text) =
      (if sublist ''Invalid API Key'' text \<or> sublist ''invalid API key'' text then InvalidApiKey
       else if sublist ''Max rate limit reached'' text then RateLimited
       else ApiError (JStr text))"
    by (auto simp: api_failure_def split: bool.splits)
  have "fetchContractSource e chainId addr sent
          = handle_response e chainId addr data (sent @ [source_request chainId addr key])"
    using assms(1-3) by (rule fetch_handles_response)
  also have "\<dots> = (Inl (api_failure (JStr text)), sent @ [source_request chainId addr key])"
    using assms(4,5) m by (simp add: handle_response_def)
  finally show ?thesis by (simp only: f)
qed

theorem failure_classified_by_message_witness:
  "fetchContractSource (client_env (\<lambda>p. Inr (failure_response ''NOTOK-Invalid API Key'' [])))
     1 ''0xcA11bde05977b3631167028862bE2a173976CA11'' []
     = (Inl InvalidApiKey, [source_request 1 ''0xcA11bde05977b3631167028862bE2a173976CA11'' ''KEY''])
   \<and> fetchContractSource (client_env (\<lambda>p. Inr (failure_response [] ''Max rate limit reached'')))
     1 ''0xcA11bde05977b3631167028862bE2a173976CA11'' []
     = (Inl RateLimited, [source_request 1 ''0xcA11bde05977b3631167028862bE2a173976CA11'' ''KEY''])
   \<and> fetchContractSource (client_env (\<lambda>p. Inr (failure_response ''NOTOK'' ''Invalid Address format'')))
     1 ''0xcA11bde05977b3631167028862bE2a173976CA11'' []
     = (Inl (ApiError (JStr ''NOTOK'')),
        [source_request 1 ''0xcA11bde05977b3631167028862bE2a173976CA11'' ''KEY''])"
proof -
  let ?a = "''0xcA11bde05977b3631167028862bE2a173976CA11''"
  let ?e = "\<lambda>m r. client_env (\<lambda>p. Inr (failure_response m r))"
  have src: "axios_get (?e m r) (source_request 1 ?a ''KEY'') = Inr (failure_response m r)" for m r
    by (simp add: client_env_def)
  have g: "get (failure_response m r) ''status'' = Inr (JStr ''0'')" "JStr ''0'' \<noteq> JStr ''1''"
    "get (failure_response m r) ''message'' = Inr (JStr m)"
    "get (failure_response m r) ''result'' = Inr (JStr r)" for m r
    by (simp_all add: failure_response_def)
  note t = failure_classified_by_message [OF getApiKey_client_env validateChainId_mainnet src g, of _ _ _ "[]"]
  have 1: "js_or (JStr ''NOTOK-Invalid API Key'') (js_or (JStr []) (JStr ''Failed to fetch contract source''))
             = JStr ''NOTOK-Invalid API Key''"
    and 2: "js_or (JStr []) (js_or (JStr ''Max rate limit reached'') (JStr ''Failed to fetch contract source''))
             = JStr ''Max rate limit reached''"
    and 3: "js_or (JStr ''NOTOK'') (js_or (JStr ''Invalid Address format'') (JStr ''Failed to fetch contract source''))
             = JStr ''NOTOK''"
    by (simp_all add: js_or_def)
  have s1: "sublist ''Invalid API Key'' ''NOTOK-Invalid API Key''"
    and s2: "\<not> sublist ''Invalid API Key'' ''Max rate limit reached''"
      "\<not> sublist ''invalid API key'' ''Max rate limit reached''"
      "sublist ''Max rate limit reached'' ''Max rate limit reached''"
    and s3: "\<not> sublist ''Invalid API Key'' ''NOTOK''" "\<not> sublist ''invalid API key'' ''NOTOK''"
      "\<not> sublist ''Max rate limit reached'' ''NOTOK''"
    by code_simp+
  from t [OF 1] t [OF 2] t [OF 3] s1 s2 s3 show ?thesis by simp
qed

text \<open>
  The claim as first stated fails on the spelling it names: the message
  \<^verbatim>\<open>invalid api key\<close>, all in lower case, matches neither pattern, and fetch throws
  the API error. So does the message \<^verbatim>\<open>max rate limit reached\<close>. And when the
  message is \<^verbatim>\<open>NOTOK\<close>, the result is not inspected at all.
\<close>

theorem lower_case_message_not_recognised:
  "fst (fetchContractSource (client_env (\<lambda>p. Inr (failure_response ''invalid api key'' [])))
         1 ''0xcA11bde05977b3631167028862bE2a173976CA11'' [])
     = Inl (ApiError (JStr ''invalid api key''))
   \<and> fst (fetchContractSource (client_env (\<lambda>p. Inr (failure_response ''max rate limit reached'' [])))
         1 ''0xcA11bde05977b3631167028862bE2a173976CA11'' [])
     = Inl (ApiError (JStr ''max rate limit reached''))
   \<and> fst (fetchContractSource (client_env (\<lambda>p. Inr (failure_response ''NOTOK'' ''Invalid API Key'')))
         1 ''0xcA11bde05977b3631167028862bE2a173976CA11'' [])
     = Inl (ApiError (JStr ''NOTOK''))"
  by code_simp

text \<open>
  Claim C8, amended. For every chain id that is not in the registry, fetch sends no
  request: the list of requests is unchanged, and the outcome does not depend on the
  transport. It throws the unsupported-chain error whenever the API key can be
  obtained; the key is obtained first, and when that fails fetch throws the key's error.
\<close>

theorem unsupported_chain_sends_nothing:
  assumes "chainId \<notin> fst ` set CHAIN_CONFIGS"
  shows "snd (fetchContractSource e chainId addr sent) = sent
       \<and> (\<forall>key. getApiKey e = Inr key \<longrightarrow>
            fst (fetchContractSource e chainId addr sent) = Inl (UnsupportedChain chainId))
       \<and> (\<forall>err. getApiKey e = Inl err \<longrightarrow>
            fst (fetchContractSource e chainId addr sent) = Inl err)
       \<and> (\<forall>transport. fetchContractSource (e\<lparr>axios_get := transport\<rparr>) chainId addr sent
            = fetchContractSource e chainId addr sent)"
proof -
  from assms have "map_of CHAIN_CONFIGS chainId = None"
    by (simp add: map_of_eq_None_iff)
  then have v: "validateChainId chainId = Inl (UnsupportedChain chainId)"
    by (simp add: validateChainId_def)
  have k: "getApiKey (e\<lparr>axios_get := transport\<rparr>) = getApiKey e" for transport
    by (simp add: getApiKey_def read_key_file_def split: option.splits)
  show ?thesis
    by (auto simp: fetchContractSource_def v k split: sum.splits)
qed

theorem unsupported_chain_sends_nothing_witness:
  "999 \<notin> fst ` set CHAIN_CONFIGS
   \<and> fetchContractSource (client_env (\<lambda>p. Inr (success_response (verified_entry ''0'' []))))
       999 ''0xcA11bde05977b3631167028862bE2a173976CA11'' []
     = (Inl (UnsupportedChain 999), [])"
proof -
  have h: "999 \<notin> fst ` set CHAIN_CONFIGS" by (simp add: CHAIN_CONFIGS_def)
  from unsupported_chain_sends_nothing [OF h] getApiKey_client_env
  show ?thesis using h by (simp add: prod_eq_iff)
qed

text \<open>
  The claim as first stated fails when no key can be obtained: no key was passed, the
  key file cannot be read, and for the unknown chain 999 fetch throws the key file's
  error, not the unsupported-chain error. It still sends nothing.
\<close>

theorem unsupported_chain_without_key:
  "999 \<notin> fst ` set CHAIN_CONFIGS
   \<and> fetchContractSource no_key_env 999 ''0xcA11bde05977b3631167028862bE2a173976CA11'' []
     = (Inl (KeyFileError ''ENOENT: no such file or directory''), [])"
  by (simp add: CHAIN_CONFIGS_def fetchContractSource_def getApiKey_def read_key_file_def
        no_key_env_def)

section \<open>The writer\<close>





lemma map_of_replace_property_other:
  "k' \<noteq> k \<Longrightarrow> map_of (replace_property kvs k v) k' = map_of kvs k'"
  by (induction kvs) auto








text \<open>
  Claim C10. For every input string that begins with two opening braces and whose rest
  parses as JSON without a sources key (or with a falsy value there, or with an empty
  sources mapping), the decoder returns the empty list, not the single file
  Contract.sol. Save then makes the output directory and writes metadata.json and
  nothing else, and the list of paths it returns has that one element; it fails only
  where one of these two operations fails.
\<close>

theorem empty_sources_only_metadata:
  assumes "startsWith raw ''{{''" "host_parse h (slice_1_m1 raw) = Some parsed"
    and "get parsed ''sources'' = Inr sources" "\<not> truthy sources \<or> sources = JObj []"
  shows "parseSourceCode (host_parse h) raw = Inr []
       \<and> (get contract ''SourceCode'' = Inr (JStr raw) \<longrightarrow>
            saveContractFiles fs h contract localPath s =
              (case fs_mkdir fs localPath s of
                 Inl err \<Rightarrow> Inl err
               | Inr s1 \<Rightarrow>
                   (case fs_writeFile fs (path_join localPath ''metadata.json'')
                           (JStr (host_stringify h (metadata h contract))) s1 of
                      Inl err \<Rightarrow> Inl err
                    | Inr s2 \<Rightarrow> Inr ([path_join localPath ''metadata.json''], s2))))"
proof -
  from assms(4) have "entries (js_or sources (JObj [])) = Inr []"
    by (auto simp: js_or_def)
  with assms(1-3) have d: "parseSourceCode (host_parse h) raw = Inr []"
    using multi_entries [of raw "host_parse h" parsed sources "[]"] by simp
  then show ?thesis
    by (simp add: saveContractFiles_def Let_def split: sum.splits)
qed

theorem empty_sources_only_metadata_witness:
  \<open>\<forall>stringify pInt.
     parseSourceCode json_parse ''{{"language":"Solidity","settings":{}}}'' = Inr []
     \<and> saveContractFiles memory_fs
         \<lparr>host_parse = json_parse, host_stringify = stringify, host_parseInt = pInt\<rparr>
         (JObj [(''SourceCode'', JStr ''{{"language":"Solidity","settings":{}}}''),
                (''ContractName'', JStr ''Token'')])
         ''/out'' []
       = Inr ([''/out/metadata.json''],
              [Dir ''/out'',
               File ''/out/metadata.json''
                 (stringify (metadata \<lparr>host_parse = json_parse, host_stringify = stringify,
                                        host_parseInt = pInt\<rparr>
                    (JObj [(''SourceCode'', JStr ''{{"language":"Solidity","settings":{}}}''),
                           (''ContractName'', JStr ''Token'')])))])\<close>
proof (intro allI)
  fix stringify :: "js \<Rightarrow> string" and pInt :: "js \<Rightarrow> number"
  let ?h = "\<lparr>host_parse = json_parse, host_stringify = stringify, host_parseInt = pInt\<rparr>"
  let ?raw = \<open>''{{"language":"Solidity","settings":{}}}''\<close>
  let ?parsed = "JObj [(''language'', JStr ''Solidity''), (''settings'', JObj [])]"
  let ?c = "JObj [(''SourceCode'', JStr ?raw), (''ContractName'', JStr ''Token'')]"
  have sw: "startsWith ?raw ''{{''" by (simp add: startsWith_def)
  have p: "json_parse (slice_1_m1 ?raw) = Some ?parsed" by code_simp
  then have p': "host_parse ?h (slice_1_m1 ?raw) = Some ?parsed" by simp
  have g: "get ?parsed ''sources'' = Inr JUndefined" "\<not> truthy JUndefined \<or> JUndefined = JObj []"
    by simp_all
  have c: "get ?c ''SourceCode'' = Inr (JStr ?raw)" by simp
  have j: "path_join ''/out'' ''metadata.json'' = ''/out/metadata.json''" by code_simp
  from empty_sources_only_metadata [OF sw p' g, of ?c memory_fs "''/out''" "[]"] c
  have "parseSourceCode json_parse ?raw = Inr []"
    and "saveContractFiles memory_fs ?h ?c ''/out'' []
       = Inr ([''/out/metadata.json''],
              [Dir ''/out'', File ''/out/metadata.json'' (stringify (metadata ?h ?c))])"
    by (simp_all add: memory_fs_def j)
  then show "parseSourceCode json_parse ?raw = Inr []
     \<and> saveContractFiles memory_fs ?h ?c ''/out'' []
       = Inr ([''/out/metadata.json''],
              [Dir ''/out'', File ''/out/metadata.json'' (stringify (metadata ?h ?c))])"
    by simp
qed

end
